theory Spec2Isabelle
  imports Complex_Main
begin

section \<open>Strings and the interpreter's library\<close>

text \<open>
  A Python \<^verbatim>\<open>str\<close> is a sequence of Unicode code points; \<^verbatim>\<open>len\<close>, indexing, \<^verbatim>\<open>in\<close>
  and the regular expressions of \<^verbatim>\<open>app.py\<close> all work on code points. A code point is a
  natural number here and a string is a list of them. ASCII literals are written with
  \<open>ustr_of\<close>.
\<close>

type_synonym ustr = "nat list"

definition ustr_of :: "string \<Rightarrow> ustr" where
  "ustr_of s = map of_char s"

text \<open>
  What \<^verbatim>\<open>str\<close> methods, \<^verbatim>\<open>unicodedata\<close> and \<^verbatim>\<open>re\<close> do on the ASCII range is fixed and
  written out below. What they do beyond it comes from the Unicode tables of the
  interpreter, which are not part of the repository: the record \<open>ucd\<close> holds that part,
  and every function of the model that touches text takes it as its first argument.
  \<^item> \<open>u_space\<close>: \<^verbatim>\<open>str.isspace\<close>, which is also \<^verbatim>\<open>\s\<close> and what \<^verbatim>\<open>strip\<close> and
    \<^verbatim>\<open>split\<close> remove;
  \<^item> \<open>u_letter\<close>: the general category starts with \<^verbatim>\<open>L\<close> (\<^verbatim>\<open>str.isalpha\<close>);
  \<^item> \<open>u_alnum\<close>: \<^verbatim>\<open>str.isalnum\<close> (\<^verbatim>\<open>\w\<close> is this or an underscore);
  \<^item> \<open>u_decimal\<close>: \<^verbatim>\<open>\d\<close>;
  \<^item> \<open>u_lower\<close>, \<open>u_capitalize\<close>: \<^verbatim>\<open>str.lower\<close>, \<^verbatim>\<open>str.capitalize\<close> on a string
    that is not all ASCII;
  \<^item> \<open>u_nfd\<close>, \<open>u_nfc\<close>: \<^verbatim>\<open>unicodedata.normalize\<close> on a string that is not all ASCII.
\<close>

record ucd =
  u_space :: "nat \<Rightarrow> bool"
  u_letter :: "nat \<Rightarrow> bool"
  u_alnum :: "nat \<Rightarrow> bool"
  u_decimal :: "nat \<Rightarrow> bool"
  u_lower :: "ustr \<Rightarrow> ustr"
  u_capitalize :: "ustr \<Rightarrow> ustr"
  u_nfd :: "ustr \<Rightarrow> ustr"
  u_nfc :: "ustr \<Rightarrow> ustr"

definition isascii :: "nat \<Rightarrow> bool" where
  "isascii c = (c < 128)"

definition ascii_isalpha :: "nat \<Rightarrow> bool" where
  "ascii_isalpha c = ((65 \<le> c \<and> c \<le> 90) \<or> (97 \<le> c \<and> c \<le> 122))"

definition ascii_isdigit :: "nat \<Rightarrow> bool" where
  "ascii_isdigit c = (48 \<le> c \<and> c \<le> 57)"

text \<open>Tab, line feed, vertical tab, form feed, carriage return, the four separators
  U+001C to U+001F, and the space.\<close>

definition ascii_isspace :: "nat \<Rightarrow> bool" where
  "ascii_isspace c = ((9 \<le> c \<and> c \<le> 13) \<or> (28 \<le> c \<and> c \<le> 32))"

definition ascii_lower :: "nat \<Rightarrow> nat" where
  "ascii_lower c = (if 65 \<le> c \<and> c \<le> 90 then c + 32 else c)"

definition ascii_upper :: "nat \<Rightarrow> nat" where
  "ascii_upper c = (if 97 \<le> c \<and> c \<le> 122 then c - 32 else c)"

definition py_isspace :: "ucd \<Rightarrow> nat \<Rightarrow> bool" where
  "py_isspace U c = (if isascii c then ascii_isspace c else u_space U c)"

definition py_isalpha :: "ucd \<Rightarrow> nat \<Rightarrow> bool" where
  "py_isalpha U c = (if isascii c then ascii_isalpha c else u_letter U c)"

definition py_isalnum :: "ucd \<Rightarrow> nat \<Rightarrow> bool" where
  "py_isalnum U c = (if isascii c then ascii_isalpha c \<or> ascii_isdigit c else u_alnum U c)"

definition py_isdecimal :: "ucd \<Rightarrow> nat \<Rightarrow> bool" where
  "py_isdecimal U c = (if isascii c then ascii_isdigit c else u_decimal U c)"

definition py_lower :: "ucd \<Rightarrow> ustr \<Rightarrow> ustr" where
  "py_lower U s = (if list_all isascii s then map ascii_lower s else u_lower U s)"

definition py_capitalize :: "ucd \<Rightarrow> ustr \<Rightarrow> ustr" where
  "py_capitalize U s =
     (if list_all isascii s
      then (case s of [] \<Rightarrow> [] | c # cs \<Rightarrow> ascii_upper c # map ascii_lower cs)
      else u_capitalize U s)"

definition py_nfd :: "ucd \<Rightarrow> ustr \<Rightarrow> ustr" where
  "py_nfd U s = (if list_all isascii s then s else u_nfd U s)"

definition py_nfc :: "ucd \<Rightarrow> ustr \<Rightarrow> ustr" where
  "py_nfc U s = (if list_all isascii s then s else u_nfc U s)"

text \<open>\<^verbatim>\<open>s.strip()\<close>: whitespace removed at both ends.\<close>

definition py_strip :: "ucd \<Rightarrow> ustr \<Rightarrow> ustr" where
  "py_strip U s = rev (dropWhile (py_isspace U) (rev (dropWhile (py_isspace U) s)))"

text \<open>\<^verbatim>\<open>s.split()\<close>: the maximal runs of characters that are not whitespace, in order.
  \<open>split_from U cur s\<close> scans \<open>s\<close> with the run read so far in \<open>cur\<close>.\<close>

fun split_from :: "ucd \<Rightarrow> ustr \<Rightarrow> ustr \<Rightarrow> ustr list" where
  "split_from U cur [] = (if cur = [] then [] else [cur])"
| "split_from U cur (c # cs) =
     (if py_isspace U c
      then (if cur = [] then split_from U [] cs else cur # split_from U [] cs)
      else split_from U (cur @ [c]) cs)"

definition py_split :: "ucd \<Rightarrow> ustr \<Rightarrow> ustr list" where
  "py_split U s = split_from U [] s"

text \<open>\<^verbatim>\<open>' '.join(ws)\<close>.\<close>

fun join_space :: "ustr list \<Rightarrow> ustr" where
  "join_space [] = []"
| "join_space [w] = w"
| "join_space (w # v # ws) = w @ 32 # join_space (v # ws)"

text \<open>\<^verbatim>\<open>s.startswith(p)\<close>.\<close>

definition startswith :: "ustr \<Rightarrow> ustr \<Rightarrow> bool" where
  "startswith s p = (take (length p) s = p)"

section \<open>Identity normalizer\<close>

text \<open>\<^verbatim>\<open>clean_corrupted_name\<close>: keeps letters, spaces, hyphens and apostrophes.\<close>

definition clean_corrupted_name :: "ucd \<Rightarrow> ustr \<Rightarrow> ustr" where
  "clean_corrupted_name U name =
     filter (\<lambda>c. py_isalpha U c \<or> c = 32 \<or> c = 45 \<or> c = 39) name"

text \<open>
  \<^verbatim>\<open>normalize_name\<close>. The inner function decomposes to NFD and keeps the ASCII letters and
  ASCII whitespace; the second filter keeps alphanumerics and whitespace; the result is
  the first two tokens of the stripped, lower-cased string, joined by one space.
\<close>

definition remove_accents_and_corruption :: "ucd \<Rightarrow> ustr \<Rightarrow> ustr" where
  "remove_accents_and_corruption U text =
     filter (\<lambda>c. isascii c \<and> (py_isalpha U c \<or> py_isspace U c)) (py_nfd U text)"

definition normalize_name :: "ucd \<Rightarrow> ustr \<Rightarrow> ustr" where
  "normalize_name U name =
     (let name1 = remove_accents_and_corruption U name;
          name2 = filter (\<lambda>c. py_isalnum U c \<or> py_isspace U c) name1
      in join_space (take 2 (py_split U (py_lower U (py_strip U name2)))))"

section \<open>The tables on Basic Latin and Latin-1 Supplement\<close>

text \<open>
  The concrete inputs below are strings of code points under 256. \<open>latin1\<close> is the
  interpreter's database on such strings: U+0085 and U+00A0 are whitespace; the letters
  are U+00AA, U+00B5, U+00BA and U+00C0 to U+00FF without the two operators; the
  superscripts and fractions are alphanumeric and not letters; there is no decimal
  digit; the capitals U+00C0 to U+00DE lower-case by adding 32; NFC changes nothing;
  NFD splits the accented letters into a base letter and a combining mark.
\<close>

definition latin1_decomp :: "(nat \<times> ustr) list" where
  "latin1_decomp =
     [(192, [65, 768]), (193, [65, 769]), (194, [65, 770]), (195, [65, 771]),
      (196, [65, 776]), (197, [65, 778]), (199, [67, 807]), (200, [69, 768]),
      (201, [69, 769]), (202, [69, 770]), (203, [69, 776]), (204, [73, 768]),
      (205, [73, 769]), (206, [73, 770]), (207, [73, 776]), (209, [78, 771]),
      (210, [79, 768]), (211, [79, 769]), (212, [79, 770]), (213, [79, 771]),
      (214, [79, 776]), (217, [85, 768]), (218, [85, 769]), (219, [85, 770]),
      (220, [85, 776]), (221, [89, 769]), (224, [97, 768]), (225, [97, 769]),
      (226, [97, 770]), (227, [97, 771]), (228, [97, 776]), (229, [97, 778]),
      (231, [99, 807]), (232, [101, 768]), (233, [101, 769]), (234, [101, 770]),
      (235, [101, 776]), (236, [105, 768]), (237, [105, 769]), (238, [105, 770]),
      (239, [105, 776]), (241, [110, 771]), (242, [111, 768]), (243, [111, 769]),
      (244, [111, 770]), (245, [111, 771]), (246, [111, 776]), (249, [117, 768]),
      (250, [117, 769]), (251, [117, 770]), (252, [117, 776]), (253, [121, 769]),
      (255, [121, 776])]"

definition latin1_decompose :: "nat \<Rightarrow> ustr" where
  "latin1_decompose c =
     (if c < 192 then [c]
      else case map_of latin1_decomp c of None \<Rightarrow> [c] | Some d \<Rightarrow> d)"

definition latin1_nfd :: "ustr \<Rightarrow> ustr" where
  "latin1_nfd s = concat (map latin1_decompose s)"

definition latin1_letter :: "nat \<Rightarrow> bool" where
  "latin1_letter c =
     (c = 170 \<or> c = 181 \<or> c = 186 \<or> (192 \<le> c \<and> c \<le> 255 \<and> c \<noteq> 215 \<and> c \<noteq> 247))"

definition latin1_lower_char :: "nat \<Rightarrow> nat" where
  "latin1_lower_char c =
     (if 192 \<le> c \<and> c \<le> 222 \<and> c \<noteq> 215 then c + 32 else ascii_lower c)"

definition latin1_upper_char :: "nat \<Rightarrow> ustr" where
  "latin1_upper_char c =
     (if c = 181 then [924] else if c = 223 then [83, 115] else if c = 255 then [376]
      else if 224 \<le> c \<and> c \<le> 254 \<and> c \<noteq> 247 then [c - 32] else [ascii_upper c])"

definition latin1 :: ucd where
  "latin1 =
     \<lparr> u_space = (\<lambda>c. c = 133 \<or> c = 160),
       u_letter = latin1_letter,
       u_alnum = (\<lambda>c. latin1_letter c \<or> c = 178 \<or> c = 179 \<or> c = 185
                      \<or> c = 188 \<or> c = 189 \<or> c = 190),
       u_decimal = (\<lambda>c. False),
       u_lower = map latin1_lower_char,
       u_capitalize = (\<lambda>s. case s of [] \<Rightarrow> []
                        | c # cs \<Rightarrow> latin1_upper_char c @ map latin1_lower_char cs),
       u_nfd = latin1_nfd,
       u_nfc = (\<lambda>s. s) \<rparr>"

text \<open>The canonical forms: at most two tokens of lower-case ASCII letters.\<close>

definition lower_letter :: "nat \<Rightarrow> bool" where
  "lower_letter c = (97 \<le> c \<and> c \<le> 122)"

definition canonical_tokens :: "ustr list \<Rightarrow> bool" where
  "canonical_tokens ws =
     (length ws \<le> 2 \<and> list_all (\<lambda>w. w \<noteq> [] \<and> list_all lower_letter w) ws)"

section \<open>Name matcher\<close>

text \<open>
  \<^verbatim>\<open>calculate_match_percentage\<close>. \<open>common_chars\<close> is
  \<^verbatim>\<open>sum(1 for c in w1 if c in w2)\<close>. \<open>pair_weight\<close> is what one round of the loop adds
  to \<^verbatim>\<open>matches\<close>: 1 for equal tokens, 0.9 when both have three characters or more
  and \<^verbatim>\<open>common_chars / max(len(w1), len(w2)) >= 0.8\<close>, nothing otherwise.

  The source computes in binary floating point. The model computes in the rationals,
  which gives the same results: the quotient of two lengths compares with 0.8 as the
  exact fraction does (the nearest other fraction is further away than the rounding
  error for any length a file name can have), and \<^verbatim>\<open>int((matches / 2) * 100)\<close>
  is 0, 45, 50, 90, 95 or 100 on the six values \<^verbatim>\<open>matches\<close> can take.
\<close>

definition common_chars :: "ustr \<Rightarrow> ustr \<Rightarrow> nat" where
  "common_chars w1 w2 = length (filter (\<lambda>c. c \<in> set w2) w1)"

definition similarity :: "ustr \<Rightarrow> ustr \<Rightarrow> rat" where
  "similarity w1 w2 = of_nat (common_chars w1 w2) / of_nat (max (length w1) (length w2))"

definition pair_weight :: "ustr \<Rightarrow> ustr \<Rightarrow> rat" where
  "pair_weight w1 w2 =
     (if w1 = w2 then 1
      else if 3 \<le> length w1 \<and> 3 \<le> length w2
      then (if 8 / 10 \<le> similarity w1 w2 then 9 / 10 else 0)
      else 0)"

text \<open>The loop \<^verbatim>\<open>for i in range(min(2, min(len(words1), len(words2))))\<close>, with the
  counter \<^verbatim>\<open>matches\<close> as accumulator.\<close>

fun match_loop :: "ustr list \<Rightarrow> ustr list \<Rightarrow> nat list \<Rightarrow> rat \<Rightarrow> rat" where
  "match_loop words1 words2 [] matches = matches"
| "match_loop words1 words2 (i # is) matches =
     match_loop words1 words2 is (matches + pair_weight (words1 ! i) (words2 ! i))"

definition calculate_match_percentage :: "ucd \<Rightarrow> ustr \<Rightarrow> ustr \<Rightarrow> int" where
  "calculate_match_percentage U name1 name2 =
     (let name1_normalized = normalize_name U name1;
          name2_normalized = normalize_name U name2
      in if name1_normalized = name2_normalized then 100
         else let words1 = py_split U name1_normalized;
                  words2 = py_split U name2_normalized
              in if words1 = [] \<or> words2 = [] then 0
                 else \<lfloor>match_loop words1 words2
                         [0 ..< min 2 (min (length words1) (length words2))] 0 / 2 * 100\<rfloor>)"

text \<open>The partial match as the specification words it: both tokens have three
  characters or more, and the characters of the candidate token found in the roster
  token are at least 0.8 of the candidate token.\<close>

definition spec_partial_match :: "ustr \<Rightarrow> ustr \<Rightarrow> bool" where
  "spec_partial_match w1 w2 =
     (3 \<le> length w1 \<and> 3 \<le> length w2 \<and>
      (8 / 10 :: rat) \<le> of_nat (common_chars w1 w2) / of_nat (length w1))"

section \<open>Feedback post-processor: the score\<close>

text \<open>
  \<^verbatim>\<open>split_feedback_and_score\<close> searches
  \<^verbatim>\<open>\bscore\s*:\s*(\d(?:\.\d)?)\<close> without regard to case.
  \<^item> \<^verbatim>\<open>\w\<close> is an alphanumeric or the underscore, and \<^verbatim>\<open>\b\<close> holds between two
    neighbours of which exactly one is a \<^verbatim>\<open>\w\<close> (the outside of the text is not).
  \<^item> Without regard to case, \<^verbatim>\<open>s\<close> also matches U+017F; the other four letters have
    their two cases only.
  \<^item> \<open>after_colon\<close> is \<^verbatim>\<open>\s*(\d(?:\.\d)?)\<close>: the longest run of whitespace after
    which a digit stands, then the digit and, when a point and a digit follow, those
    two as well. Its value is group 1.
  \<^item> \<open>score_match\<close> matches the expression without its \<^verbatim>\<open>\b\<close> at the head of a text.
  \<^item> \<open>search_from\<close> is \<^verbatim>\<open>re.search\<close>: the leftmost position where the expression
    matches, with group 1. \<open>prev\<close> is the character before the text and \<open>i\<close> the
    position of its head.
\<close>

definition re_word :: "ucd \<Rightarrow> nat \<Rightarrow> bool" where
  "re_word U c = (py_isalnum U c \<or> c = 95)"

definition word_boundary :: "ucd \<Rightarrow> nat option \<Rightarrow> nat option \<Rightarrow> bool" where
  "word_boundary U left right =
     ((case left of None \<Rightarrow> False | Some c \<Rightarrow> re_word U c)
      \<noteq> (case right of None \<Rightarrow> False | Some c \<Rightarrow> re_word U c))"

definition ci_score :: "ustr \<Rightarrow> bool" where
  "ci_score w =
     (case w of
        [c1, c2, c3, c4, c5] \<Rightarrow>
          (c1 = 115 \<or> c1 = 83 \<or> c1 = 383) \<and> (c2 = 99 \<or> c2 = 67) \<and> (c3 = 111 \<or> c3 = 79)
          \<and> (c4 = 114 \<or> c4 = 82) \<and> (c5 = 101 \<or> c5 = 69)
      | _ \<Rightarrow> False)"

definition number_at :: "ucd \<Rightarrow> nat \<Rightarrow> ustr \<Rightarrow> ustr" where
  "number_at U d t =
     (case t of
        p # e # _ \<Rightarrow> if p = 46 \<and> py_isdecimal U e then [d, p, e] else [d]
      | _ \<Rightarrow> [d])"

fun after_colon :: "ucd \<Rightarrow> ustr \<Rightarrow> ustr option" where
  "after_colon U [] = None"
| "after_colon U (d # t) =
     (case (if py_isspace U d then after_colon U t else None) of
        Some g \<Rightarrow> Some g
      | None \<Rightarrow> if py_isdecimal U d then Some (number_at U d t) else None)"

definition score_match :: "ucd \<Rightarrow> ustr \<Rightarrow> ustr option" where
  "score_match U t =
     (if ci_score (take 5 t)
      then (case dropWhile (py_isspace U) (drop 5 t) of
              [] \<Rightarrow> None
            | c # r \<Rightarrow> if c = 58 then after_colon U r else None)
      else None)"

fun search_from :: "ucd \<Rightarrow> nat option \<Rightarrow> nat \<Rightarrow> ustr \<Rightarrow> (nat \<times> ustr) option" where
  "search_from U prev i [] = None"
| "search_from U prev i (c # t) =
     (case (if word_boundary U prev (Some c) then score_match U (c # t) else None) of
        Some g \<Rightarrow> Some (i, g)
      | None \<Rightarrow> search_from U (Some c) (Suc i) t)"

definition split_feedback_and_score :: "ucd \<Rightarrow> ustr \<Rightarrow> ustr \<times> ustr" where
  "split_feedback_and_score U comment =
     (case search_from U None 0 comment of
        Some (start, score) \<Rightarrow> (py_strip U (take start comment), score)
      | None \<Rightarrow> (comment, []))"

text \<open>
  The pattern, stated on its own. \<open>is_number U g t\<close>: the text \<open>t\<close> starts with the
  number \<open>g\<close>, a digit, with a point and a second digit exactly when they follow.
  \<open>pattern_here U t g\<close>: \<open>t\<close> starts with the five letters, whitespace, a colon,
  whitespace and the number \<open>g\<close>. \<open>pattern_at U s i g\<close>: this holds at position \<open>i\<close>
  of \<open>s\<close>, and position \<open>i\<close> is a word boundary.
\<close>

definition is_number :: "ucd \<Rightarrow> ustr \<Rightarrow> ustr \<Rightarrow> bool" where
  "is_number U g t =
     (\<exists>d r. t = d # r \<and> py_isdecimal U d \<and> g = number_at U d r)"

definition pattern_here :: "ucd \<Rightarrow> ustr \<Rightarrow> ustr \<Rightarrow> bool" where
  "pattern_here U t g =
     (\<exists>w sp1 sp2 r. t = w @ sp1 @ 58 # sp2 @ r \<and> ci_score w
        \<and> list_all (py_isspace U) sp1 \<and> list_all (py_isspace U) sp2 \<and> is_number U g r)"

definition pattern_at :: "ucd \<Rightarrow> ustr \<Rightarrow> nat \<Rightarrow> ustr \<Rightarrow> bool" where
  "pattern_at U s i g =
     (i < length s \<and> pattern_here U (drop i s) g
      \<and> word_boundary U (if i = 0 then None else Some (s ! (i - 1))) (Some (s ! i)))"

text \<open>
  The splitter as the specification words it: the pattern is looked for anywhere in
  the text, with no condition on what stands before it.
\<close>

fun spec_search_from :: "ucd \<Rightarrow> nat \<Rightarrow> ustr \<Rightarrow> (nat \<times> ustr) option" where
  "spec_search_from U i [] = None"
| "spec_search_from U i (c # t) =
     (case score_match U (c # t) of
        Some g \<Rightarrow> Some (i, g)
      | None \<Rightarrow> spec_search_from U (Suc i) t)"

definition spec_split_feedback_and_score :: "ucd \<Rightarrow> ustr \<Rightarrow> ustr \<times> ustr" where
  "spec_split_feedback_and_score U comment =
     (case spec_search_from U 0 comment of
        Some (start, score) \<Rightarrow> (py_strip U (take start comment), score)
      | None \<Rightarrow> (comment, []))"

section \<open>Feedback post-processor: vocabulary, salutation, length\<close>

text \<open>
  A letter of a pattern matched without regard to case: the letter, its capital, and
  the code points the \<^verbatim>\<open>re\<close> module adds for \<^verbatim>\<open>s\<close> (U+017F), \<^verbatim>\<open>i\<close> (U+0130, U+0131)
  and \<^verbatim>\<open>k\<close> (U+212A). \<open>p\<close> is a lower-case ASCII letter.
\<close>

definition ci_char :: "nat \<Rightarrow> nat \<Rightarrow> bool" where
  "ci_char p c =
     (c = p \<or> c + 32 = p \<or> (p = 115 \<and> c = 383) \<or> (p = 105 \<and> (c = 304 \<or> c = 305))
      \<or> (p = 107 \<and> c = 8490))"

definition nth_opt :: "'a list \<Rightarrow> nat \<Rightarrow> 'a option" where
  "nth_opt xs n = (if n < length xs then Some (xs ! n) else None)"

text \<open>\<^verbatim>\<open>\bword\b\<close> matches at the head of \<open>t\<close>, whose left neighbour is \<open>prev\<close>.\<close>

definition word_here :: "ucd \<Rightarrow> ustr \<Rightarrow> nat option \<Rightarrow> ustr \<Rightarrow> bool" where
  "word_here U w prev t =
     (length w \<le> length t \<and> list_all2 ci_char w (take (length w) t)
      \<and> word_boundary U prev (nth_opt t 0)
      \<and> word_boundary U (nth_opt t (length w - 1)) (nth_opt t (length w)))"

text \<open>
  \<^verbatim>\<open>re.sub(rf'\b{word}\b', repl, feedback, flags=re.IGNORECASE)\<close>: every match from
  left to right, none overlapping another. \<open>skip\<close> counts the characters of the
  current match that are still to be passed over.
\<close>

fun sub_word_from :: "ucd \<Rightarrow> ustr \<Rightarrow> ustr \<Rightarrow> nat \<Rightarrow> nat option \<Rightarrow> ustr \<Rightarrow> ustr" where
  "sub_word_from U w repl skip prev [] = []"
| "sub_word_from U w repl skip prev (c # t) =
     (if 0 < skip then sub_word_from U w repl (skip - 1) (Some c) t
      else if word_here U w prev (c # t)
      then repl @ sub_word_from U w repl (length w - 1) (Some c) t
      else c # sub_word_from U w repl 0 (Some c) t)"

definition replacements :: "(string \<times> string) list" where
  "replacements =
     [(''commendable'', ''good''), (''excellent'', ''very good''), (''innovative'', ''new''),
      (''unique'', ''special''), (''fostering'', ''helping''), (''comprehensive'', ''complete''),
      (''ensure'', ''make sure''), (''showcases'', ''shows''), (''great'', ''good'')]"

text \<open>\<^verbatim>\<open>re.match(r'^\w+,', feedback)\<close>.\<close>

definition word_then_comma :: "ucd \<Rightarrow> ustr \<Rightarrow> bool" where
  "word_then_comma U s =
     (takeWhile (re_word U) s \<noteq> [] \<and> nth_opt (dropWhile (re_word U) s) 0 = Some 44)"

definition enforce_instructions :: "ucd \<Rightarrow> ustr \<Rightarrow> ustr" where
  "enforce_instructions U feedback =
     (let feedback1 = fold (\<lambda>(word, repl) f.
                              sub_word_from U (ustr_of word) (ustr_of repl) 0 None f)
                        replacements feedback;
          feedback2 = (if \<not> startswith feedback1 (ustr_of ''You'')
                          \<and> \<not> word_then_comma U feedback1
                       then ustr_of ''You, '' @ feedback1 else feedback1)
      in if 1000 < length feedback2 then take 1000 feedback2 @ ustr_of ''...''
         else feedback2)"

section \<open>Paths and file names\<close>

text \<open>The part of \<open>s\<close> before its last \<open>x\<close> and the part after it (all of \<open>s\<close> when
  there is none).\<close>

definition before_last :: "nat \<Rightarrow> ustr \<Rightarrow> ustr" where
  "before_last x s = rev (tl (dropWhile (\<lambda>c. c \<noteq> x) (rev s)))"

definition after_last :: "nat \<Rightarrow> ustr \<Rightarrow> ustr" where
  "after_last x s = rev (takeWhile (\<lambda>c. c \<noteq> x) (rev s))"

text \<open>\<^verbatim>\<open>os.path.splitext(p)[0]\<close>: the extension starts at the last point of the last
  path component, unless only points stand before it in that component.\<close>

definition splitext_root :: "ustr \<Rightarrow> ustr" where
  "splitext_root p =
     (let d = (if 47 \<in> set p then before_last 47 p @ [47] else []);
          b = after_last 47 p
      in if 46 \<in> set b \<and> (\<exists>c\<in>set (before_last 46 b). c \<noteq> 46)
         then d @ before_last 46 b else p)"

definition os_path_basename :: "ustr \<Rightarrow> ustr" where
  "os_path_basename p = after_last 47 p"

definition os_path_join :: "ustr \<Rightarrow> ustr \<Rightarrow> ustr" where
  "os_path_join a b =
     (if startswith b [47] then b
      else if a = [] \<or> last a = 47 then a @ b
      else a @ 47 # b)"

text \<open>\<^verbatim>\<open>allowed_file(f, {'pdf', 'docx'})\<close>.\<close>

definition allowed_file :: "ucd \<Rightarrow> ustr \<Rightarrow> ustr list \<Rightarrow> bool" where
  "allowed_file U filename file_types =
     (46 \<in> set filename \<and> py_lower U (after_last 46 filename) \<in> set file_types)"

definition extract_first_name_from_filename :: "ucd \<Rightarrow> ustr \<Rightarrow> ustr" where
  "extract_first_name_from_filename U filename =
     (let name_part = clean_corrupted_name U (py_nfc U (splitext_root filename))
      in case py_split U (py_strip U name_part) of
           [] \<Rightarrow> ustr_of ''Student''
         | w # _ \<Rightarrow> py_capitalize U w)"

section \<open>The comment of one item\<close>

text \<open>
  The salutation at line 282 is a character of the class of \<^verbatim>\<open>A-Z\<close> and the capitals
  U+00C1, U+00C9, U+00CD, U+00D3, U+00DA, U+00D1, followed by one or more of the class of
  \<^verbatim>\<open>a-z\<close> and the small letters U+00E1, U+00E9, U+00ED, U+00F3, U+00FA, U+00F1. The two
  classes match the same characters when case is disregarded: the ASCII letters, the
  six accented letters in both cases, and U+0130, U+0131, U+017F, U+212A.
\<close>

definition salutation_letter :: "nat \<Rightarrow> bool" where
  "salutation_letter c =
     (ascii_isalpha c \<or> c \<in> set [193, 201, 205, 209, 211, 218, 225, 233, 237, 241, 243, 250]
      \<or> c \<in> set [304, 305, 383, 8490])"

text \<open>The \<^verbatim>\<open>re.sub\<close> of line 282, which replaces the salutation, optional whitespace, a
  comma and optional whitespace at the start of the comment by nothing: a leading run
  of two letters or more, whitespace, a comma and whitespace are cut.\<close>

definition strip_salutation :: "ucd \<Rightarrow> ustr \<Rightarrow> ustr" where
  "strip_salutation U comment =
     (if 2 \<le> length (takeWhile salutation_letter comment)
      then (case dropWhile (py_isspace U) (dropWhile salutation_letter comment) of
              [] \<Rightarrow> comment
            | c # r \<Rightarrow> if c = 44 then dropWhile (py_isspace U) r else comment)
      else comment)"

text \<open>Lines 280 to 284: the salutation of the generated text is cut, and the first
  name read from the file name is put in front unless the text starts with it.\<close>

definition address_comment :: "ucd \<Rightarrow> ustr \<Rightarrow> ustr \<Rightarrow> ustr" where
  "address_comment U first_name comment =
     (if comment \<noteq> []
      then (let comment1 = strip_salutation U comment
            in if \<not> startswith (py_lower U comment1) (py_lower U first_name)
               then (if comment1 \<noteq> []
                     then first_name @ ustr_of '', '' @ py_lower U [hd comment1] @ tl comment1
                     else [])
               else comment1)
      else comment)"

section \<open>The roster, the events and the outside world\<close>

text \<open>
  An exception is kept as a value. \<open>Raised m\<close> is an exception of an external call whose
  \<^verbatim>\<open>str(e)\<close> is \<open>m\<close>; the others are the exceptions the interpreter raises inside
  \<^verbatim>\<open>process_bulk_marking\<close> itself.
\<close>

datatype exn = Raised ustr | TypeError | AttributeError | IndexError | KeyError | ReError

text \<open>
  A cell of the column \<^verbatim>\<open>Full name\<close> as \<^verbatim>\<open>pd.read_csv\<close> delivers it: a string, the
  float NaN of an empty cell, or a value that is not a string (a number, a boolean),
  kept with its \<^verbatim>\<open>str(x)\<close>.

  A cell of \<^verbatim>\<open>Feedback comments\<close> or \<^verbatim>\<open>Grade\<close>: what the file held, or what the run
  wrote: a string, \<^verbatim>\<open>float(score)\<close> (kept as the text it is parsed from) or \<^verbatim>\<open>None\<close>.
  The other columns of a row are the list \<open>other_columns\<close>.
\<close>

datatype cell = Text ustr | NaN | NonText ustr

datatype 'v field = Original 'v | Str ustr | Float ustr | PyNone

record 'v row =
  full_name :: cell
  other_columns :: "'v list"
  feedback_comments :: "'v field"
  grade :: "'v field"

record 'v roster =
  has_full_name :: bool
  has_feedback_comments :: bool
  has_grade :: bool
  rows :: "'v row list"

datatype match_status = Success | No_match

record result =
  file_name :: ustr
  student_name :: ustr
  matched_name :: "ustr option"
  match_percentage :: int
  match_status :: match_status
  score :: ustr
  comment :: ustr
  comment_preview :: ustr

text \<open>
  The events, one constructor for each value of the key \<^verbatim>\<open>type\<close>:
  \<open>Progress current total percentage result\<close>, \<open>Error file e\<close> (the message is
  \<^verbatim>\<open>str(e)\<close>), \<open>Complete total csv_filename excel_filename\<close>, \<open>Fatal_error e\<close>.
  \<open>Invalid_task_type\<close> is the record \<^verbatim>\<open>{"error": "Invalid task type"}\<close>, which has no
  key \<^verbatim>\<open>type\<close>.
\<close>

datatype event =
  Progress nat nat int result
| Error ustr exn
| Complete nat ustr ustr
| Fatal_error exn
| Invalid_task_type

definition event_type :: "event \<Rightarrow> ustr option" where
  "event_type e =
     (case e of
        Progress _ _ _ _ \<Rightarrow> Some (ustr_of ''progress'')
      | Error _ _ \<Rightarrow> Some (ustr_of ''error'')
      | Complete _ _ _ \<Rightarrow> Some (ustr_of ''complete'')
      | Fatal_error _ \<Rightarrow> Some (ustr_of ''fatal_error'')
      | Invalid_task_type \<Rightarrow> None)"

datatype 'v artifact = Csv_file ustr "'v row list" | Excel_file ustr "result list"

text \<open>
  Everything \<^verbatim>\<open>process_bulk_marking\<close> asks of its collaborators:
  \<^item> \<open>lib\<close>: the interpreter's tables;
  \<^item> \<open>template_ok\<close>, \<open>template_expand\<close>: what \<^verbatim>\<open>re.sub\<close> makes of a replacement text
    that holds a backslash: whether it is accepted, and what it stands for at a match;
  \<^item> \<open>load_instructions\<close>: \<^verbatim>\<open>open\<close> and \<^verbatim>\<open>json.load\<close> of the instructions file;
  \<^item> \<open>read_csv\<close>: \<^verbatim>\<open>pd.read_csv\<close> of the roster;
  \<^item> \<open>unpack\<close>: \<^verbatim>\<open>tempfile.mkdtemp\<close>, \<^verbatim>\<open>extractall\<close> and \<^verbatim>\<open>os.listdir\<close>: the temporary
    directory and the names in it;
  \<^item> \<open>extract_text\<close>: the function of that name, \<open>Inl m\<close> when it raises;
  \<^item> \<open>completion\<close>: the prompt, the call of the generation service and the text of its
    first choice, \<open>Inl m\<close> when any of that raises (also when the text is \<^verbatim>\<open>None\<close>,
    which raises in \<^verbatim>\<open>enforce_instructions\<close>, inside the same \<^verbatim>\<open>try\<close>);
  \<^item> \<open>percent idx total\<close>: \<^verbatim>\<open>int((idx / total_files) * 100)\<close> as binary floating
    point gives it;
  \<^item> \<open>strftime\<close>: the time stamp; \<open>write_error\<close>: the exception, if any, of writing
    a file; \<open>known_sessions\<close>: the keys of \<^verbatim>\<open>processing_sessions\<close>;
    \<open>rmtree_error\<close>: the exception, if any, of \<^verbatim>\<open>shutil.rmtree\<close>.
\<close>

record 'v world =
  lib :: ucd
  template_ok :: "ustr \<Rightarrow> bool"
  template_expand :: "ustr \<Rightarrow> ustr \<Rightarrow> ustr"
  load_instructions :: "ustr \<Rightarrow> exn + ustr"
  read_csv :: "ustr \<Rightarrow> exn + 'v roster"
  unpack :: "ustr \<Rightarrow> exn + ustr \<times> ustr list"
  extract_text :: "ustr \<Rightarrow> ustr + ustr"
  completion :: "ustr \<Rightarrow> ustr \<Rightarrow> ustr + ustr"
  percent :: "nat \<Rightarrow> nat \<Rightarrow> int"
  strftime :: ustr
  write_error :: "ustr \<Rightarrow> exn option"
  known_sessions :: "ustr list"
  rmtree_error :: "ustr \<Rightarrow> exn option"

record 'v outcome =
  events :: "event list"
  artifacts :: "'v artifact list"
  session_updated :: bool

section \<open>Feedback generation\<close>

text \<open>\<^verbatim>\<open>generate_feedback\<close>. The extraction stands before the \<^verbatim>\<open>try\<close>: its exception
  leaves the function (\<open>Inl\<close>). An exception inside the \<^verbatim>\<open>try\<close> becomes the returned
  text \<^verbatim>\<open>Error: <message>\<close>.\<close>

definition generate_feedback :: "'v world \<Rightarrow> ustr \<Rightarrow> ustr \<Rightarrow> ustr + ustr" where
  "generate_feedback W file_path instructions =
     (case extract_text W file_path of
        Inl m \<Rightarrow> Inl m
      | Inr text \<Rightarrow>
          (case completion W instructions text of
             Inl m \<Rightarrow> Inr (ustr_of ''Error: '' @ m)
           | Inr feedback \<Rightarrow> Inr (enforce_instructions (lib W) feedback)))"

section \<open>Matching one item against the roster\<close>

text \<open>\<^verbatim>\<open>re.sub(r'^[^,]+,', f'{correct_first_name},', comment)\<close>, run only on a comment
  that is not empty. The replacement text is compiled before the search, so one that
  is not accepted raises whether or not the comment has a comma. The expression
  matches when the comment has a comma and does not start with it; the match is the
  text up to the first comma.\<close>

definition fix_first_name :: "'v world \<Rightarrow> ustr \<Rightarrow> ustr \<Rightarrow> exn + ustr" where
  "fix_first_name W correct_first_name comment_text =
     (if comment_text = [] then Inr comment_text
      else let template = correct_first_name @ [44]
           in if 92 \<in> set template \<and> \<not> template_ok W template then Inl ReError
              else if hd comment_text \<noteq> 44 \<and> 44 \<in> set comment_text
              then Inr ((if 92 \<in> set template
                         then template_expand W template
                                (takeWhile (\<lambda>c. c \<noteq> 44) comment_text @ [44])
                         else template)
                        @ tl (dropWhile (\<lambda>c. c \<noteq> 44) comment_text))
              else Inr comment_text)"

text \<open>\<^verbatim>\<open>matched_name.split()[0]\<close>.\<close>

definition first_word :: "ucd \<Rightarrow> ustr \<Rightarrow> exn + ustr" where
  "first_word U name = (case py_split U name of [] \<Rightarrow> Inl IndexError | w # _ \<Rightarrow> Inr w)"

text \<open>The two assignments through \<^verbatim>\<open>df.loc[df["Full name"] == matched_name, ...]\<close>.
  They are taken to succeed, as they do in a pandas that widens the type of a column
  for a value of another type; a pandas that refuses such a value for a column read
  from the file raises here, which is not modelled.\<close>

definition write_feedback :: "ustr \<Rightarrow> ustr \<Rightarrow> ustr \<Rightarrow> 'v row list \<Rightarrow> 'v row list" where
  "write_feedback matched comment_text score_text df =
     map (\<lambda>r. if full_name r = Text matched
               then r\<lparr>feedback_comments := Str comment_text,
                      grade := (if score_text \<noteq> [] then Float score_text else PyNone)\<rparr>
               else r) df"

text \<open>\<^verbatim>\<open>df_normalized_names.apply(normalize_name)\<close>: the names were brought to NFC
  (through \<^verbatim>\<open>str\<close>) unless they are NaN, and NaN makes \<^verbatim>\<open>normalize_name\<close> raise.\<close>

definition normalized_cell :: "ucd \<Rightarrow> cell \<Rightarrow> exn + ustr" where
  "normalized_cell U c =
     (case c of
        Text s \<Rightarrow> Inr (normalize_name U (py_nfc U s))
      | NonText s \<Rightarrow> Inr (normalize_name U (py_nfc U s))
      | NaN \<Rightarrow> Inl TypeError)"

fun normalized_names :: "ucd \<Rightarrow> cell list \<Rightarrow> exn + ustr list" where
  "normalized_names U [] = Inr []"
| "normalized_names U (c # cs) =
     (case normalized_cell U c of
        Inl e \<Rightarrow> Inl e
      | Inr n \<Rightarrow>
          (case normalized_names U cs of
             Inl e \<Rightarrow> Inl e
           | Inr ns \<Rightarrow> Inr (n # ns)))"

fun first_index :: "('a \<Rightarrow> bool) \<Rightarrow> 'a list \<Rightarrow> nat option" where
  "first_index P [] = None"
| "first_index P (x # xs) =
     (if P x then Some 0 else map_option Suc (first_index P xs))"

text \<open>The loop \<^verbatim>\<open>for idx, csv_name in enumerate(df["Full name"])\<close>, with the state
  \<^verbatim>\<open>best_match\<close>, \<^verbatim>\<open>best_score\<close>. A name that is not a string raises in
  \<^verbatim>\<open>calculate_match_percentage\<close>.\<close>

fun fuzzy_loop ::
  "ucd \<Rightarrow> ustr \<Rightarrow> (nat \<times> cell) list \<Rightarrow> (nat \<times> ustr) option \<Rightarrow> int
     \<Rightarrow> exn + (nat \<times> ustr) option \<times> int" where
  "fuzzy_loop U student [] best_match best_score = Inr (best_match, best_score)"
| "fuzzy_loop U student ((idx, csv_name) # rest) best_match best_score =
     (case csv_name of
        Text s \<Rightarrow>
          (let similarity_percentage = calculate_match_percentage U student s
           in if best_score < similarity_percentage
              then fuzzy_loop U student rest (Some (idx, s)) similarity_percentage
              else fuzzy_loop U student rest best_match best_score)
      | _ \<Rightarrow> Inl TypeError)"

text \<open>
  Lines 286 to 346. The value is the matched name, the confidence, the status, the
  comment, the roster and the variable \<^verbatim>\<open>idx\<close> as they stand at line 348. The inner
  loop binds \<^verbatim>\<open>idx\<close> again: after it, on a roster with rows, \<^verbatim>\<open>idx\<close> is the index of
  the last row.
\<close>

definition match_roster ::
  "'v world \<Rightarrow> nat \<Rightarrow> ustr \<Rightarrow> ustr \<Rightarrow> ustr \<Rightarrow> 'v row list
     \<Rightarrow> exn + ustr option \<times> int \<times> match_status \<times> ustr \<times> 'v row list \<times> nat" where
  "match_roster W idx student comment_text score_text df =
     (let normalized_filename = normalize_name (lib W) student
      in case normalized_names (lib W) (map full_name df) of
           Inl e \<Rightarrow> Inl e
         | Inr names \<Rightarrow>
             (case first_index (\<lambda>n. n = normalized_filename) names of
                Some i \<Rightarrow>
                  (case full_name (df ! i) of
                     Text matched \<Rightarrow>
                       (case first_word (lib W) matched of
                          Inl e \<Rightarrow> Inl e
                        | Inr correct_first_name \<Rightarrow>
                            (case fix_first_name W correct_first_name comment_text of
                               Inl e \<Rightarrow> Inl e
                             | Inr comment1 \<Rightarrow>
                                 Inr (Some matched, 100, Success, comment1,
                                      write_feedback matched comment1 score_text df, idx)))
                   | _ \<Rightarrow> Inl AttributeError)
              | None \<Rightarrow>
                  (case fuzzy_loop (lib W) student
                          (zip [0 ..< length df] (map full_name df)) None 0 of
                     Inl e \<Rightarrow> Inl e
                   | Inr (best_match, best_score) \<Rightarrow>
                       (let idx1 = (if df = [] then idx else length df - 1)
                        in case best_match of
                             Some (_, matched) \<Rightarrow>
                               if 80 \<le> best_score
                               then (case first_word (lib W) matched of
                                       Inl e \<Rightarrow> Inl e
                                     | Inr correct_first_name \<Rightarrow>
                                         (case fix_first_name W correct_first_name comment_text of
                                            Inl e \<Rightarrow> Inl e
                                          | Inr comment1 \<Rightarrow>
                                              Inr (Some matched, best_score, Success, comment1,
                                                   write_feedback matched comment1 score_text df,
                                                   idx1)))
                               else Inr (None, 0, No_match, comment_text, df, idx1)
                           | None \<Rightarrow> Inr (None, 0, No_match, comment_text, df, idx1)))))"

section \<open>One archive entry\<close>

text \<open>The body of the \<^verbatim>\<open>try\<close> of one round of the loop over the files, up to the
  \<^verbatim>\<open>result\<close> record: \<open>Inl e\<close> when it raises.\<close>

definition process_entry ::
  "'v world \<Rightarrow> ustr \<Rightarrow> ustr \<Rightarrow> nat \<Rightarrow> ustr \<Rightarrow> 'v row list
     \<Rightarrow> exn + result \<times> nat \<times> 'v row list" where
  "process_entry W temp_dir instructions idx fname df =
     (let fname_original = py_nfd (lib W) fname;
          path = os_path_join temp_dir fname_original;
          fname_clean = clean_corrupted_name (lib W) fname;
          student_name_from_file = py_strip (lib W) (splitext_root fname_clean);
          first_name = extract_first_name_from_filename (lib W) fname
      in case generate_feedback W path instructions of
           Inl m \<Rightarrow> Inl (Raised m)
         | Inr full_feedback \<Rightarrow>
             (case split_feedback_and_score (lib W) full_feedback of
                (comment0, score_text) \<Rightarrow>
                  (case match_roster W idx student_name_from_file
                          (address_comment (lib W) first_name comment0) score_text df of
                     Inl e \<Rightarrow> Inl e
                   | Inr (matched, confidence, status, comment1, df1, idx1) \<Rightarrow>
                       Inr (\<lparr> file_name = fname_clean,
                              student_name = student_name_from_file,
                              matched_name = matched,
                              match_percentage = confidence,
                              match_status = status,
                              score = score_text,
                              comment = comment1,
                              comment_preview =
                                (if 150 < length comment1
                                 then take 150 comment1 @ ustr_of ''...'' else comment1) \<rparr>,
                            idx1, df1))))"

text \<open>One round of the loop with its handler: the event it yields, the roster and the
  list \<^verbatim>\<open>results\<close> after it.\<close>

definition process_file ::
  "'v world \<Rightarrow> ustr \<Rightarrow> ustr \<Rightarrow> nat \<Rightarrow> nat \<Rightarrow> ustr \<Rightarrow> 'v row list \<Rightarrow> result list
     \<Rightarrow> event \<times> 'v row list \<times> result list" where
  "process_file W temp_dir instructions total_files idx fname df results =
     (case process_entry W temp_dir instructions idx fname df of
        Inr (res, idx1, df1) \<Rightarrow>
          (Progress idx1 total_files (percent W idx1 total_files) res, df1, results @ [res])
      | Inl e \<Rightarrow>
          (Error (if fname \<noteq> [] then clean_corrupted_name (lib W) fname
                  else ustr_of ''Unknown file'') e,
           df, results))"

text \<open>The loop \<^verbatim>\<open>for idx, fname in enumerate(files, 1)\<close>.\<close>

fun process_files ::
  "'v world \<Rightarrow> ustr \<Rightarrow> ustr \<Rightarrow> nat \<Rightarrow> nat \<Rightarrow> ustr list \<Rightarrow> 'v row list \<Rightarrow> result list
     \<Rightarrow> event list \<times> 'v row list \<times> result list" where
  "process_files W temp_dir instructions total_files idx [] df results = ([], df, results)"
| "process_files W temp_dir instructions total_files idx (fname # rest) df results =
     (case process_file W temp_dir instructions total_files idx fname df results of
        (ev, df1, results1) \<Rightarrow>
          (case process_files W temp_dir instructions total_files (Suc idx) rest df1 results1 of
             (evs, df2, results2) \<Rightarrow> (ev # evs, df2, results2)))"

section \<open>The batch\<close>

definition task_configs :: "(string \<times> string) list" where
  "task_configs =
     [(''reading'', ''instructions-reading.json''), (''oral'', ''instructions-oral.json''),
      (''essay'', ''instructions-essay.json'')]"

text \<open>\<^verbatim>\<open>TASK_CONFIGS.get(task_type)\<close>.\<close>

definition task_config :: "ustr \<Rightarrow> ustr option" where
  "task_config task_type =
     map_of (map (\<lambda>(k, v). (ustr_of k, ustr_of v)) task_configs) task_type"

definition upload_folder :: ustr where
  "upload_folder = ustr_of ''uploads/''"

text \<open>
  Lines 226 to 251, after the task type is accepted: the instructions, the roster with
  the two columns added where they are missing, the temporary directory and the list
  \<^verbatim>\<open>files\<close>. A roster without the column \<^verbatim>\<open>Full name\<close> raises \<^verbatim>\<open>KeyError\<close>.
\<close>

definition prepare ::
  "'v world \<Rightarrow> ustr \<Rightarrow> ustr \<Rightarrow> ustr
     \<Rightarrow> exn + ustr \<times> 'v row list \<times> ustr \<times> ustr list" where
  "prepare W instructions_file zip_path csv_path =
     (case load_instructions W instructions_file of
        Inl e \<Rightarrow> Inl e
      | Inr instructions \<Rightarrow>
          (case read_csv W csv_path of
             Inl e \<Rightarrow> Inl e
           | Inr table \<Rightarrow>
               if \<not> has_full_name table then Inl KeyError
               else
                 (let df1 = (if has_feedback_comments table then rows table
                             else map (\<lambda>r. r\<lparr>feedback_comments := Str []\<rparr>) (rows table));
                      df2 = (if has_grade table then df1
                             else map (\<lambda>r. r\<lparr>grade := PyNone\<rparr>) df1)
                  in case unpack W zip_path of
                       Inl e \<Rightarrow> Inl e
                     | Inr (temp_dir, listing) \<Rightarrow>
                         (let raw_files =
                                filter (\<lambda>f. allowed_file (lib W) f
                                               [ustr_of ''pdf'', ustr_of ''docx'']) listing;
                              files = map (py_nfc (lib W)) raw_files
                          in Inr (instructions, df2, temp_dir, files)))))"

text \<open>
  Lines 382 to 423, after the loop, with the events yielded so far in \<open>evs\<close>. The
  roster is written first. The workbook is built from \<^verbatim>\<open>results\<close>. With no result the
  selection of its columns raises \<^verbatim>\<open>KeyError\<close> inside the \<^verbatim>\<open>with\<close> block; the writer
  then closes a workbook without a sheet, which raises \<^verbatim>\<open>IndexError\<close> in its place and
  leaves the workbook file behind. The session is updated, the \<^verbatim>\<open>complete\<close> event is
  yielded, and the temporary directory is removed last, so that a failure there comes
  after \<^verbatim>\<open>complete\<close>. Every exception ends in the outer handler, which yields
  \<^verbatim>\<open>fatal_error\<close>.
\<close>

definition finalize ::
  "'v world \<Rightarrow> ustr \<Rightarrow> ustr \<Rightarrow> ustr \<Rightarrow> nat \<Rightarrow> 'v row list \<Rightarrow> result list
     \<Rightarrow> event list \<Rightarrow> 'v outcome" where
  "finalize W session_id csv_path temp_dir total_files df results evs =
     (let ts = strftime W;
          csv_filename = os_path_basename csv_path;
          output_csv = os_path_join upload_folder
                         (splitext_root csv_filename @ ustr_of ''_with_feedback_''
                            @ ts @ ustr_of ''.csv'');
          excel_path = os_path_join upload_folder
                         (ustr_of ''bulk_feedback_'' @ ts @ ustr_of ''.xlsx'')
      in case write_error W output_csv of
           Some e \<Rightarrow>
             \<lparr> events = evs @ [Fatal_error e], artifacts = [], session_updated = False \<rparr>
         | None \<Rightarrow>
             (case write_error W excel_path of
                Some e \<Rightarrow>
                  \<lparr> events = evs @ [Fatal_error e], artifacts = [Csv_file output_csv df],
                     session_updated = False \<rparr>
              | None \<Rightarrow>
                  if results = []
                  then \<lparr> events = evs @ [Fatal_error IndexError],
                          artifacts = [Csv_file output_csv df, Excel_file excel_path results],
                          session_updated = False \<rparr>
                  else if session_id \<notin> set (known_sessions W)
                  then \<lparr> events = evs @ [Fatal_error KeyError],
                          artifacts = [Csv_file output_csv df, Excel_file excel_path results],
                          session_updated = False \<rparr>
                  else
                    \<lparr> events =
                        evs @ Complete total_files (os_path_basename output_csv)
                                (os_path_basename excel_path)
                            # (case rmtree_error W temp_dir of
                                 None \<Rightarrow> [] | Some e \<Rightarrow> [Fatal_error e]),
                      artifacts = [Csv_file output_csv df, Excel_file excel_path results],
                      session_updated = True \<rparr>))"

text \<open>\<^verbatim>\<open>process_bulk_marking\<close>, drained to its end: the events in the order they are
  yielded, the files written and whether the session was updated.\<close>

definition process_bulk_marking ::
  "'v world \<Rightarrow> ustr \<Rightarrow> ustr \<Rightarrow> ustr \<Rightarrow> ustr \<Rightarrow> 'v outcome" where
  "process_bulk_marking W session_id task_type zip_path csv_path =
     (case task_config task_type of
        None \<Rightarrow> \<lparr> events = [Invalid_task_type], artifacts = [], session_updated = False \<rparr>
      | Some instructions_file \<Rightarrow>
          (case prepare W instructions_file zip_path csv_path of
             Inl e \<Rightarrow>
               \<lparr> events = [Fatal_error e], artifacts = [], session_updated = False \<rparr>
           | Inr (instructions, df, temp_dir, files) \<Rightarrow>
               (case process_files W temp_dir instructions (length files) 1 files df [] of
                  (evs, df1, results) \<Rightarrow>
                    finalize W session_id csv_path temp_dir (length files) df1 results evs)))"

text \<open>The temporary directory and the list \<^verbatim>\<open>files\<close> of a run that reaches the loop
  over the files.\<close>

definition loop_inputs ::
  "'v world \<Rightarrow> ustr \<Rightarrow> ustr \<Rightarrow> ustr \<Rightarrow> (ustr \<times> ustr list) option" where
  "loop_inputs W task_type zip_path csv_path =
     (case task_config task_type of
        None \<Rightarrow> None
      | Some instructions_file \<Rightarrow>
          (case prepare W instructions_file zip_path csv_path of
             Inl e \<Rightarrow> None
           | Inr (instructions, df, temp_dir, files) \<Rightarrow> Some (temp_dir, files)))"

section \<open>Notions used in the statements\<close>

text \<open>An event of one entry: a \<^verbatim>\<open>progress\<close> event whose result carries the cleaned file
  name, or an \<^verbatim>\<open>error\<close> event that names it.\<close>

definition is_item_event :: "ucd \<Rightarrow> ustr \<Rightarrow> event \<Rightarrow> bool" where
  "is_item_event U fname e =
     (case e of
        Progress _ _ _ res \<Rightarrow> file_name res = clean_corrupted_name U fname
      | Error f _ \<Rightarrow>
          f = (if fname \<noteq> [] then clean_corrupted_name U fname else ustr_of ''Unknown file'')
      | _ \<Rightarrow> False)"

text \<open>A run-level failure: the \<^verbatim>\<open>fatal_error\<close> event, or the record of an invalid task
  type.\<close>

definition is_fatal :: "event \<Rightarrow> bool" where
  "is_fatal e = (case e of Fatal_error _ \<Rightarrow> True | Invalid_task_type \<Rightarrow> True | _ \<Rightarrow> False)"

text \<open>The counter \<^verbatim>\<open>current\<close> of a \<^verbatim>\<open>progress\<close> event.\<close>

definition event_current :: "event \<Rightarrow> nat option" where
  "event_current e = (case e of Progress current _ _ _ \<Rightarrow> Some current | _ \<Rightarrow> None)"





text \<open>Two rosters with the same rows in the same order, up to the two augmented
  fields.\<close>

definition same_frame :: "'v row list \<Rightarrow> 'v row list \<Rightarrow> bool" where
  "same_frame df df1 =
     (length df1 = length df \<and> map full_name df1 = map full_name df
      \<and> map other_columns df1 = map other_columns df)"

section \<open>A small run\<close>

text \<open>
  A world for concrete runs: the instructions load, the session \<^verbatim>\<open>s1\<close> is known and
  nothing fails to write. The roster, the extraction, the generation and the names in
  the unpacked archive are the parameters. The percentage is the exact one, which is
  what floating point gives at the inputs used below.
\<close>

definition demo_world ::
  "unit roster \<Rightarrow> (ustr \<Rightarrow> ustr + ustr) \<Rightarrow> (ustr \<Rightarrow> ustr + ustr) \<Rightarrow> ustr list \<Rightarrow> unit world" where
  "demo_world table extract generate listing =
     \<lparr> lib = latin1,
       template_ok = (\<lambda>t. False),
       template_expand = (\<lambda>t m. t),
       load_instructions = (\<lambda>f. Inr (ustr_of ''{}'')),
       read_csv = (\<lambda>p. Inr table),
       unpack = (\<lambda>p. Inr (ustr_of ''/tmp/x'', listing)),
       extract_text = extract,
       completion = (\<lambda>i. generate),
       percent = (\<lambda>idx total. \<lfloor>(of_nat idx / of_nat total :: rat) * 100\<rfloor>),
       strftime = ustr_of ''20250101120000'',
       write_error = (\<lambda>p. None),
       known_sessions = [ustr_of ''s1''],
       rmtree_error = (\<lambda>p. None) \<rparr>"

definition name_row :: "string \<Rightarrow> unit row" where
  "name_row n =
     \<lparr> full_name = Text (ustr_of n), other_columns = [],
       feedback_comments = Str [], grade = PyNone \<rparr>"

definition demo_roster :: "string list \<Rightarrow> unit roster" where
  "demo_roster ns =
     \<lparr> has_full_name = True, has_feedback_comments = False, has_grade = False,
       rows = map name_row ns \<rparr>"

text \<open>
  Three runs. In the first, one document matches none of three roster rows. In the
  second, the extraction of the first of two documents raises and the second document
  matches a roster row exactly. The third is one entry against a roster in which one
  name stands twice.
\<close>

definition demo_run1 :: "unit outcome" where
  "demo_run1 =
     process_bulk_marking
       (demo_world (demo_roster [''Carl Jones'', ''Dora Smith'', ''Eve Adams''])
          (\<lambda>p. Inr (ustr_of ''text'')) (\<lambda>t. Inr (ustr_of ''Fine. Score: 7''))
          [ustr_of ''Ana Ruiz.pdf''])
       (ustr_of ''s1'') (ustr_of ''essay'') (ustr_of ''a.zip'') (ustr_of ''r.csv'')"

definition demo_world2 :: "unit world" where
  "demo_world2 =
     demo_world (demo_roster [''Carl Jones Smith'', ''Dora Smith''])
       (\<lambda>p. if p = ustr_of ''/tmp/x/Ana Ruiz.pdf'' then Inl (ustr_of ''bad pdf'')
            else Inr (ustr_of ''text''))
       (\<lambda>t. Inr (ustr_of ''Fine. Score: 7''))
       [ustr_of ''Ana Ruiz.pdf'', ustr_of ''notes.txt'', ustr_of ''Carl Jones Smith.pdf'']"

definition demo_run2 :: "unit outcome" where
  "demo_run2 =
     process_bulk_marking demo_world2
       (ustr_of ''s1'') (ustr_of ''essay'') (ustr_of ''a.zip'') (ustr_of ''r.csv'')"

definition demo_world3 :: "unit world" where
  "demo_world3 =
     demo_world (demo_roster [''Ana Maria Ruiz'', ''Bob Stone'', ''Ana Maria Ruiz''])
       (\<lambda>p. Inr (ustr_of ''text'')) (\<lambda>t. Inr (ustr_of ''Fine. Score: 7''))
       [ustr_of ''Ana Maria Ruiz.pdf'']"

definition demo_entry3 :: "exn + result \<times> nat \<times> unit row list" where
  "demo_entry3 =
     process_entry demo_world3 (ustr_of ''/tmp/x'') (ustr_of ''{}'') 1
       (ustr_of ''Ana Maria Ruiz.pdf'')
       (map name_row [''Ana Maria Ruiz'', ''Bob Stone'', ''Ana Maria Ruiz''])"

text \<open>
  Two more runs. In the fourth, the archive holds one document and its extraction
  raises. In the fifth, the archive holds no document.
\<close>

definition demo_world4 :: "unit world" where
  "demo_world4 =
     demo_world (demo_roster [''Carl Jones'', ''Dora Smith''])
       (\<lambda>p. Inl (ustr_of ''bad pdf'')) (\<lambda>t. Inr (ustr_of ''Fine. Score: 7''))
       [ustr_of ''Ana Ruiz.pdf'']"

definition demo_run4 :: "unit outcome" where
  "demo_run4 =
     process_bulk_marking demo_world4
       (ustr_of ''s1'') (ustr_of ''essay'') (ustr_of ''a.zip'') (ustr_of ''r.csv'')"

definition demo_world5 :: "unit world" where
  "demo_world5 =
     demo_world (demo_roster [''Carl Jones'', ''Dora Smith''])
       (\<lambda>p. Inr (ustr_of ''text'')) (\<lambda>t. Inr (ustr_of ''Fine. Score: 7''))
       [ustr_of ''notes.txt'']"

definition demo_run5 :: "unit outcome" where
  "demo_run5 =
     process_bulk_marking demo_world5
       (ustr_of ''s1'') (ustr_of ''essay'') (ustr_of ''a.zip'') (ustr_of ''r.csv'')"

section \<open>Evaluating the model\<close>

text \<open>The definitions that the simplifier unfolds to run the model on a concrete
  input.\<close>

lemma latin1_sel:
  "u_space latin1 c = (c = 133 \<or> c = 160)"
  "u_letter latin1 = latin1_letter"
  "u_alnum latin1 c =
     (latin1_letter c \<or> c = 178 \<or> c = 179 \<or> c = 185 \<or> c = 188 \<or> c = 189 \<or> c = 190)"
  "u_decimal latin1 c = False"
  "u_lower latin1 = map latin1_lower_char"
  "u_capitalize latin1 s =
     (case s of [] \<Rightarrow> [] | c # cs \<Rightarrow> latin1_upper_char c @ map latin1_lower_char cs)"
  "u_nfd latin1 = latin1_nfd"
  "u_nfc latin1 s = s"
  by (simp_all add: latin1_def)

lemma demo_world_sel:
  "lib (demo_world table extract generate listing) = latin1"
  "template_ok (demo_world table extract generate listing) t = False"
  "template_expand (demo_world table extract generate listing) t m = t"
  "load_instructions (demo_world table extract generate listing) f = Inr (ustr_of ''{}'')"
  "read_csv (demo_world table extract generate listing) p = Inr table"
  "unpack (demo_world table extract generate listing) p = Inr (ustr_of ''/tmp/x'', listing)"
  "extract_text (demo_world table extract generate listing) = extract"
  "completion (demo_world table extract generate listing) i = generate"
  "percent (demo_world table extract generate listing) idx n
     = \<lfloor>(of_nat idx / of_nat n :: rat) * 100\<rfloor>"
  "strftime (demo_world table extract generate listing) = ustr_of ''20250101120000''"
  "write_error (demo_world table extract generate listing) p = None"
  "known_sessions (demo_world table extract generate listing) = [ustr_of ''s1'']"
  "rmtree_error (demo_world table extract generate listing) p = None"
  by (simp_all add: demo_world_def)

lemma demo_roster_sel:
  "has_full_name (demo_roster ns) = True"
  "has_feedback_comments (demo_roster ns) = False"
  "has_grade (demo_roster ns) = False"
  "rows (demo_roster ns) = map name_row ns"
  by (simp_all add: demo_roster_def)

lemmas text_defs =
  ustr_of_def isascii_def ascii_isalpha_def ascii_isdigit_def ascii_isspace_def
  ascii_lower_def ascii_upper_def py_isspace_def py_isalpha_def py_isalnum_def
  py_isdecimal_def py_lower_def py_capitalize_def py_nfd_def py_nfc_def py_strip_def
  py_split_def startswith_def clean_corrupted_name_def remove_accents_and_corruption_def
  normalize_name_def latin1_sel latin1_nfd_def latin1_decompose_def latin1_decomp_def
  latin1_letter_def latin1_lower_char_def latin1_upper_char_def Let_def

lemmas match_defs =
  common_chars_def similarity_def pair_weight_def calculate_match_percentage_def
  spec_partial_match_def

lemmas score_defs =
  re_word_def word_boundary_def ci_score_def number_at_def score_match_def
  split_feedback_and_score_def spec_split_feedback_and_score_def

lemmas feedback_defs =
  ci_char_def nth_opt_def word_here_def replacements_def word_then_comma_def
  enforce_instructions_def salutation_letter_def strip_salutation_def address_comment_def
  generate_feedback_def

lemmas path_defs =
  before_last_def after_last_def splitext_root_def os_path_basename_def os_path_join_def
  allowed_file_def extract_first_name_from_filename_def

lemmas run_defs =
  fix_first_name_def first_word_def write_feedback_def normalized_cell_def
  match_roster_def process_entry_def process_file_def task_configs_def task_config_def
  upload_folder_def prepare_def finalize_def process_bulk_marking_def loop_inputs_def
  demo_world_sel name_row_def demo_roster_sel

lemmas eval_defs = text_defs match_defs score_defs feedback_defs path_defs run_defs

section \<open>The identity normalizer is idempotent\<close>

lemma lower_letter_facts:
  "lower_letter c \<Longrightarrow> isascii c \<and> ascii_isalpha c \<and> \<not> ascii_isspace c \<and> ascii_lower c = c"
  by (auto simp: lower_letter_def isascii_def ascii_isalpha_def ascii_isspace_def ascii_lower_def)

lemma lower_letter_not_space: "lower_letter c \<Longrightarrow> \<not> py_isspace U c"
  by (simp add: py_isspace_def lower_letter_facts)

lemma split_from_append:
  "\<forall>c\<in>set w. \<not> py_isspace U c \<Longrightarrow> split_from U cur (w @ r) = split_from U (cur @ w) r"
  by (induction w arbitrary: cur) auto

lemma split_from_tokens:
  "w \<in> set (split_from U cur s) \<Longrightarrow> \<forall>c\<in>set cur. \<not> py_isspace U c \<Longrightarrow>
     w \<noteq> [] \<and> (\<forall>c\<in>set w. \<not> py_isspace U c \<and> (c \<in> set cur \<or> c \<in> set s))"
proof (induction s arbitrary: cur)
  case Nil
  then show ?case by (auto split: if_splits)
next
  case (Cons a s)
  show ?case
  proof (cases "py_isspace U a")
    case True
    with Cons.prems have "w = cur \<and> cur \<noteq> [] \<or> w \<in> set (split_from U [] s)"
      by (auto split: if_splits)
    then show ?thesis
    proof
      assume "w = cur \<and> cur \<noteq> []"
      with Cons.prems(2) show ?thesis by auto
    next
      assume "w \<in> set (split_from U [] s)"
      from Cons.IH[OF this] show ?thesis by auto
    qed
  next
    case False
    with Cons.prems have "w \<in> set (split_from U (cur @ [a]) s)" by simp
    moreover from False Cons.prems(2) have "\<forall>c\<in>set (cur @ [a]). \<not> py_isspace U c" by auto
    ultimately have "w \<noteq> [] \<and> (\<forall>c\<in>set w. \<not> py_isspace U c \<and> (c \<in> set (cur @ [a]) \<or> c \<in> set s))"
      by (rule Cons.IH)
    then show ?thesis by auto
  qed
qed

lemma py_split_tokens:
  "w \<in> set (py_split U s) \<Longrightarrow> w \<noteq> [] \<and> (\<forall>c\<in>set w. \<not> py_isspace U c \<and> c \<in> set s)"
  using split_from_tokens[of w U "[]" s] by (simp add: py_split_def)

lemma py_split_join_space:
  "\<forall>w\<in>set ws. w \<noteq> [] \<and> (\<forall>c\<in>set w. \<not> py_isspace U c) \<Longrightarrow> py_split U (join_space ws) = ws"
proof (induction ws rule: join_space.induct)
  case 1
  then show ?case by (simp add: py_split_def)
next
  case (2 w)
  then show ?case using split_from_append[of w U "[]" "[]"] by (simp add: py_split_def)
next
  case (3 w v ws)
  have sp: "py_isspace U 32" by (simp add: py_isspace_def isascii_def ascii_isspace_def)
  from 3 have "split_from U [] (w @ 32 # join_space (v # ws)) = split_from U w (32 # join_space (v # ws))"
    using split_from_append[of w U "[]"] by simp
  also from 3 sp have "\<dots> = w # split_from U [] (join_space (v # ws))" by simp
  also from 3 have "\<dots> = w # v # ws" by (simp add: py_split_def)
  finally show ?case by (simp add: py_split_def)
qed

lemma join_space_ends:
  "ws \<noteq> [] \<Longrightarrow> \<forall>w\<in>set ws. w \<noteq> [] \<Longrightarrow>
     join_space ws \<noteq> [] \<and> hd (join_space ws) = hd (hd ws) \<and> last (join_space ws) = last (last ws)"
  by (induction ws rule: join_space.induct) auto

lemma set_join_space: "set (join_space ws) \<subseteq> insert 32 (\<Union>(set ` set ws))"
  by (induction ws rule: join_space.induct) auto

lemma dropWhile_hd_id: "xs \<noteq> [] \<Longrightarrow> \<not> P (hd xs) \<Longrightarrow> dropWhile P xs = xs"
  by (cases xs) auto

lemma py_strip_id:
  assumes "s = [] \<or> (\<not> py_isspace U (hd s) \<and> \<not> py_isspace U (last s))"
  shows "py_strip U s = s"
proof (cases "s = []")
  case True
  then show ?thesis by (simp add: py_strip_def)
next
  case False
  with assms have h: "\<not> py_isspace U (hd s)" and l: "\<not> py_isspace U (last s)" by auto
  from False h have 1: "dropWhile (py_isspace U) s = s" by (rule dropWhile_hd_id)
  from False l have "dropWhile (py_isspace U) (rev s) = rev s"
    by (intro dropWhile_hd_id) (simp_all add: hd_rev)
  with 1 show ?thesis by (simp add: py_strip_def)
qed

lemma set_py_strip: "set (py_strip U s) \<subseteq> set s"
  by (auto simp: py_strip_def dest!: set_dropWhileD)

lemma canonical_tokens_fixed:
  assumes "canonical_tokens ws"
  shows "normalize_name U (join_space ws) = join_space ws"
proof -
  let ?j = "join_space ws"
  from assms have tok: "\<forall>w\<in>set ws. w \<noteq> [] \<and> (\<forall>c\<in>set w. lower_letter c)" and len: "length ws \<le> 2"
    by (auto simp: canonical_tokens_def list_all_iff)
  have chars: "\<forall>c\<in>set ?j. c = 32 \<or> lower_letter c"
    using set_join_space[of ws] tok by auto
  then have asc: "list_all isascii ?j"
    by (auto simp: list_all_iff isascii_def lower_letter_def)
  have keep1: "remove_accents_and_corruption U ?j = ?j"
    unfolding remove_accents_and_corruption_def using asc chars
    by (auto simp: py_nfd_def list_all_iff py_isalpha_def py_isspace_def isascii_def
        ascii_isspace_def lower_letter_def ascii_isalpha_def intro!: filter_True)
  have keep2: "filter (\<lambda>c. py_isalnum U c \<or> py_isspace U c) ?j = ?j"
    using chars
    by (auto simp: py_isalnum_def py_isspace_def isascii_def
        ascii_isspace_def lower_letter_def ascii_isalpha_def intro!: filter_True)
  have strip: "py_strip U ?j = ?j"
  proof (cases "ws = []")
    case True
    then show ?thesis by (simp add: py_strip_def)
  next
    case False
    with tok have e: "?j \<noteq> [] \<and> hd ?j = hd (hd ws) \<and> last ?j = last (last ws)"
      by (intro join_space_ends) auto
    from False tok have "lower_letter (hd (hd ws))" "lower_letter (last (last ws))"
      by (metis hd_in_set last_in_set)+
    with e show ?thesis by (intro py_strip_id) (simp add: lower_letter_not_space)
  qed
  have low: "py_lower U ?j = ?j"
    using asc chars by (auto simp: py_lower_def ascii_lower_def lower_letter_def intro!: map_idI)
  have spl: "py_split U ?j = ws"
    using tok by (intro py_split_join_space) (auto simp: lower_letter_not_space)
  from len have "take 2 ws = ws" by simp
  with keep1 keep2 strip low spl show ?thesis by (simp add: normalize_name_def)
qed

lemma normalize_name_canonical:
  "\<exists>ws. canonical_tokens ws \<and> normalize_name U x = join_space ws"
proof -
  define n1 where "n1 = remove_accents_and_corruption U x"
  define n2 where "n2 = filter (\<lambda>c. py_isalnum U c \<or> py_isspace U c) n1"
  define s where "s = py_strip U n2"
  define ws where "ws = take 2 (py_split U (py_lower U s))"
  have c1: "\<forall>c\<in>set n1. isascii c \<and> (ascii_isalpha c \<or> ascii_isspace c)"
    by (auto simp: n1_def remove_accents_and_corruption_def py_isalpha_def py_isspace_def)
  then have "\<forall>c\<in>set n2. isascii c \<and> (ascii_isalpha c \<or> ascii_isspace c)"
    by (simp add: n2_def)
  with set_py_strip[of U n2] have cs: "\<forall>c\<in>set s. isascii c \<and> (ascii_isalpha c \<or> ascii_isspace c)"
    by (auto simp: s_def)
  then have low: "py_lower U s = map ascii_lower s"
    by (simp add: py_lower_def list_all_iff)
  have cl: "\<forall>c\<in>set (py_lower U s). lower_letter c \<or> py_isspace U c"
    unfolding low using cs
    by (auto simp: lower_letter_def py_isspace_def isascii_def ascii_lower_def
        ascii_isalpha_def ascii_isspace_def)
  have "canonical_tokens ws"
    unfolding canonical_tokens_def list_all_iff
  proof (intro conjI ballI)
    show "length ws \<le> 2" by (simp add: ws_def)
  next
    fix w assume "w \<in> set ws"
    then have "w \<in> set (py_split U (py_lower U s))" by (auto simp: ws_def dest: in_set_takeD)
    from py_split_tokens[OF this] cl show "w \<noteq> []" by simp
  next
    fix w c assume "w \<in> set ws" "c \<in> set w"
    then have "w \<in> set (py_split U (py_lower U s))" by (auto simp: ws_def dest: in_set_takeD)
    from py_split_tokens[OF this] cl \<open>c \<in> set w\<close> show "lower_letter c" by auto
  qed
  moreover have "normalize_name U x = join_space ws"
    by (simp add: normalize_name_def ws_def s_def n2_def n1_def)
  ultimately show ?thesis by blast
qed

lemma normalize_name_idem: "normalize_name U (normalize_name U x) = normalize_name U x"
  using normalize_name_canonical[of U x] canonical_tokens_fixed by auto

text \<open>
  Claim C5, amended. \<^verbatim>\<open>normalize_name\<close> is idempotent: normalising a normalised name
  changes nothing, for every input. It maps \<^verbatim>\<open>F\<close>, U+00E1, \<^verbatim>\<open>tima\<close> to \<^verbatim>\<open>fatima\<close> and
  \<^verbatim>\<open>Fa\<close>, U+00FC, \<^verbatim>\<open>tima\<close> to \<^verbatim>\<open>fautima\<close>: the base letter \<^verbatim>\<open>u\<close> of the
  decomposed U+00FC is kept.
\<close>

theorem normalize_name_idempotent:
  "normalize_name U (normalize_name U x) = normalize_name U x
   \<and> normalize_name latin1 [70, 225, 116, 105, 109, 97] = ustr_of ''fatima''
   \<and> normalize_name latin1 [70, 97, 252, 116, 105, 109, 97] = ustr_of ''fautima''"
proof (intro conjI)
  show "normalize_name U (normalize_name U x) = normalize_name U x"
    by (rule normalize_name_idem)
  show "normalize_name latin1 [70, 225, 116, 105, 109, 97] = ustr_of ''fatima''"
    by (simp add: text_defs)
  show "normalize_name latin1 [70, 97, 252, 116, 105, 109, 97] = ustr_of ''fautima''"
    by (simp add: text_defs)
qed

theorem normalize_name_idempotent_witness:
  "normalize_name latin1 (normalize_name latin1 [70, 97, 252, 116, 105, 109, 97])
     = normalize_name latin1 [70, 97, 252, 116, 105, 109, 97]"
  using normalize_name_idempotent [of latin1 "[70, 97, 252, 116, 105, 109, 97]"] by blast

text \<open>The claim as stated has \<^verbatim>\<open>Fa\<close>, U+00FC, \<^verbatim>\<open>tima\<close> normalise to \<^verbatim>\<open>fatima\<close>; it
  does not.\<close>

theorem normalize_name_fautima_counterexample:
  "normalize_name latin1 [70, 97, 252, 116, 105, 109, 97] \<noteq> ustr_of ''fatima''"
  by (simp add: text_defs)

section \<open>The similarity score\<close>

lemma match_loop_sum:
  "match_loop ws1 ws2 is m = m + sum_list (map (\<lambda>i. pair_weight (ws1 ! i) (ws2 ! i)) is)"
  by (induction "is" arbitrary: m) (simp_all add: add.assoc)

lemma index_map_zip:
  "map (\<lambda>i. f (xs ! i) (ys ! i)) [0 ..< min n (min (length xs) (length ys))]
     = map (\<lambda>(a, b). f a b) (zip (take n xs) (take n ys))"
  by (rule nth_equalityI) auto

lemma pair_weight_cases:
  "pair_weight w1 w2 = 1 \<and> w1 = w2 \<or> pair_weight w1 w2 = 9 / 10 \<and> w1 \<noteq> w2 \<or> pair_weight w1 w2 = 0 \<and> w1 \<noteq> w2"
  by (simp add: pair_weight_def)

lemma pair_weight_floor: "\<lfloor>pair_weight a b / 2 * 100\<rfloor> \<in> {0, 45, 50}"
  by (simp add: pair_weight_def)

lemma pair_weight_floor2:
  "a1 \<noteq> b1 \<or> a2 \<noteq> b2 \<Longrightarrow>
     \<lfloor>(pair_weight a1 b1 + pair_weight a2 b2) / 2 * 100\<rfloor> \<in> {0, 45, 50, 90, 95}"
  by (auto simp: pair_weight_def)

lemma py_split_normalize_name:
  "\<exists>ws. canonical_tokens ws \<and> normalize_name U x = join_space ws \<and> py_split U (normalize_name U x) = ws"
proof -
  from normalize_name_canonical[of U x] obtain ws
    where c: "canonical_tokens ws" and n: "normalize_name U x = join_space ws" by blast
  from c have "\<forall>w\<in>set ws. w \<noteq> [] \<and> (\<forall>c\<in>set w. \<not> py_isspace U c)"
    by (auto simp: canonical_tokens_def list_all_iff lower_letter_not_space)
  then have "py_split U (join_space ws) = ws" by (rule py_split_join_space)
  with c n show ?thesis by auto
qed

lemma calculate_match_percentage_sum:
  assumes "normalize_name U name1 \<noteq> normalize_name U name2"
  shows "calculate_match_percentage U name1 name2 =
     \<lfloor>(\<Sum>(a, b)\<leftarrow>zip (take 2 (py_split U (normalize_name U name1)))
                    (take 2 (py_split U (normalize_name U name2))). pair_weight a b) / 2 * 100\<rfloor>"
proof -
  let ?w1 = "py_split U (normalize_name U name1)" and ?w2 = "py_split U (normalize_name U name2)"
  show ?thesis
  proof (cases "?w1 = [] \<or> ?w2 = []")
    case True
    then have "zip (take 2 ?w1) (take 2 ?w2) = []" by auto
    with True assms show ?thesis by (auto simp: calculate_match_percentage_def Let_def)
  next
    case False
    with assms show ?thesis
      by (simp add: calculate_match_percentage_def Let_def match_loop_sum index_map_zip)
  qed
qed

lemma calculate_match_percentage_values:
  assumes "normalize_name U name1 \<noteq> normalize_name U name2"
  shows "calculate_match_percentage U name1 name2 \<in> {0, 45, 50, 90, 95}"
proof -
  obtain ws1 where c1: "canonical_tokens ws1" and n1: "normalize_name U name1 = join_space ws1"
    and s1: "py_split U (normalize_name U name1) = ws1"
    using py_split_normalize_name[of U name1] by blast
  obtain ws2 where c2: "canonical_tokens ws2" and n2: "normalize_name U name2 = join_space ws2"
    and s2: "py_split U (normalize_name U name2) = ws2"
    using py_split_normalize_name[of U name2] by blast
  from assms n1 n2 have ne: "ws1 \<noteq> ws2" by auto
  from c1 have l1: "length ws1 \<le> 2" by (simp add: canonical_tokens_def)
  from c2 have l2: "length ws2 \<le> 2" by (simp add: canonical_tokens_def)
  have eq: "calculate_match_percentage U name1 name2 =
     \<lfloor>(\<Sum>(a, b)\<leftarrow>zip ws1 ws2. pair_weight a b) / 2 * 100\<rfloor>"
    using calculate_match_percentage_sum[OF assms] s1 s2 l1 l2 by simp
  consider "ws1 = [] \<or> ws2 = []" | a b where "ws1 = [a]" "ws2 \<noteq> []" "hd ws2 = b"
    | a b where "ws2 = [b]" "ws1 \<noteq> []" "hd ws1 = a" "length ws1 = 2"
    | a1 a2 b1 b2 where "ws1 = [a1, a2]" "ws2 = [b1, b2]"
  proof -
    have "length ws1 = 0 \<or> length ws1 = 1 \<or> length ws1 = 2" using l1 by arith
    moreover have "length ws2 = 0 \<or> length ws2 = 1 \<or> length ws2 = 2" using l2 by arith
    ultimately show ?thesis using that
      by (auto simp: length_Suc_conv numeral_2_eq_2)
  qed
  then show ?thesis
  proof cases
    case 1
    then have "zip ws1 ws2 = []" by auto
    with eq show ?thesis by simp
  next
    case (2 a b)
    then obtain r where "ws2 = b # r" by (cases ws2) auto
    with 2 eq have "calculate_match_percentage U name1 name2 = \<lfloor>pair_weight a b / 2 * 100\<rfloor>"
      by simp
    with pair_weight_floor[of a b] show ?thesis by auto
  next
    case (3 a b)
    then obtain r where "ws1 = a # r" by (cases ws1) auto
    with 3 eq have "calculate_match_percentage U name1 name2 = \<lfloor>pair_weight a b / 2 * 100\<rfloor>"
      by simp
    with pair_weight_floor[of a b] show ?thesis by auto
  next
    case (4 a1 a2 b1 b2)
    with eq have e: "calculate_match_percentage U name1 name2 =
        \<lfloor>(pair_weight a1 b1 + pair_weight a2 b2) / 2 * 100\<rfloor>" by simp
    from 4 ne have "a1 \<noteq> b1 \<or> a2 \<noteq> b2" by auto
    with pair_weight_floor2[of a1 b1 a2 b2] e show ?thesis by auto
  qed
qed

lemma calculate_match_percentage_100:
  "calculate_match_percentage U name1 name2 = 100 \<longleftrightarrow> normalize_name U name1 = normalize_name U name2"
proof
  assume "calculate_match_percentage U name1 name2 = 100"
  then show "normalize_name U name1 = normalize_name U name2"
    using calculate_match_percentage_values[of U name1 name2] by auto
next
  assume "normalize_name U name1 = normalize_name U name2"
  then show "calculate_match_percentage U name1 name2 = 100"
    by (simp add: calculate_match_percentage_def)
qed

lemma pair_weight_partial:
  "w1 \<noteq> w2 \<Longrightarrow> pair_weight w1 w2 = 9 / 10 \<longleftrightarrow>
     3 \<le> length w1 \<and> 3 \<le> length w2 \<and>
     (8 / 10 :: rat) \<le> of_nat (common_chars w1 w2) / of_nat (max (length w1) (length w2))"
  by (auto simp: pair_weight_def similarity_def)

text \<open>
  Claim C1, amended. Two different tokens add 0.9 exactly when both have three
  characters or more and the characters of the candidate token found in the roster
  token, divided by the length of the longer of the two tokens, are at least 0.8;
  otherwise they add nothing. For two names whose canonical forms differ, the
  confidence is the sum of the weights of the first two token pairs, divided by 2 and
  scaled to a percentage, rounded down.
\<close>

theorem pair_weight_and_confidence:
  "(w1 \<noteq> w2 \<longrightarrow>
      (pair_weight w1 w2 = 9 / 10 \<longleftrightarrow>
         3 \<le> length w1 \<and> 3 \<le> length w2 \<and>
         (8 / 10 :: rat) \<le> of_nat (common_chars w1 w2) / of_nat (max (length w1) (length w2)))
      \<and> (pair_weight w1 w2 \<noteq> 9 / 10 \<longrightarrow> pair_weight w1 w2 = 0))
   \<and> (normalize_name U name1 \<noteq> normalize_name U name2 \<longrightarrow>
        calculate_match_percentage U name1 name2 =
          \<lfloor>(\<Sum>(a, b)\<leftarrow>zip (take 2 (py_split U (normalize_name U name1)))
                         (take 2 (py_split U (normalize_name U name2))). pair_weight a b)
             / 2 * 100\<rfloor>)"
  using pair_weight_partial[of w1 w2] pair_weight_cases[of w1 w2]
    calculate_match_percentage_sum[of U name1 name2]
  by auto

theorem pair_weight_and_confidence_witness:
  "ustr_of ''fautima'' \<noteq> ustr_of ''fatima''
   \<and> pair_weight (ustr_of ''fautima'') (ustr_of ''fatima'') = 9 / 10
   \<and> normalize_name latin1 (ustr_of ''Fautima Garcia'')
        \<noteq> normalize_name latin1 (ustr_of ''Fatima Garcia'')
   \<and> calculate_match_percentage latin1 (ustr_of ''Fautima Garcia'') (ustr_of ''Fatima Garcia'')
        = 95"
proof -
  have ne: "ustr_of ''fautima'' \<noteq> ustr_of ''fatima''" by (simp add: text_defs)
  have n1: "normalize_name latin1 (ustr_of ''Fautima Garcia'') = ustr_of ''fautima garcia''"
    by (simp add: text_defs)
  have n2: "normalize_name latin1 (ustr_of ''Fatima Garcia'') = ustr_of ''fatima garcia''"
    by (simp add: text_defs)
  have nne: "ustr_of ''fautima garcia'' \<noteq> ustr_of ''fatima garcia''" by (simp add: text_defs)
  have s1: "py_split latin1 (ustr_of ''fautima garcia'') = [ustr_of ''fautima'', ustr_of ''garcia'']"
    by (simp add: text_defs)
  have s2: "py_split latin1 (ustr_of ''fatima garcia'') = [ustr_of ''fatima'', ustr_of ''garcia'']"
    by (simp add: text_defs)
  have l: "length (ustr_of ''fautima'') = 7" "length (ustr_of ''fatima'') = 6"
    "common_chars (ustr_of ''fautima'') (ustr_of ''fatima'') = 6"
    by (simp_all add: text_defs match_defs)
  note t = pair_weight_and_confidence
    [of "ustr_of ''fautima''" "ustr_of ''fatima''" latin1
        "ustr_of ''Fautima Garcia''" "ustr_of ''Fatima Garcia''"]
  from t ne l have w: "pair_weight (ustr_of ''fautima'') (ustr_of ''fatima'') = 9 / 10"
    by simp
  from t n1 n2 nne s1 s2 w
  have "calculate_match_percentage latin1 (ustr_of ''Fautima Garcia'') (ustr_of ''Fatima Garcia'')
      = \<lfloor>(9 / 10 + pair_weight (ustr_of ''garcia'') (ustr_of ''garcia'') :: rat) / 2 * 100\<rfloor>"
    by simp
  then have "calculate_match_percentage latin1 (ustr_of ''Fautima Garcia'')
      (ustr_of ''Fatima Garcia'') = 95"
    by (simp add: pair_weight_def)
  with ne w n1 n2 nne show ?thesis by simp
qed

text \<open>
  The claim as stated divides by the length of the candidate token. The tokens
  \<^verbatim>\<open>ana\<close> and \<^verbatim>\<open>anna\<close> differ, have three characters or more, and every character of
  \<^verbatim>\<open>ana\<close> is in \<^verbatim>\<open>anna\<close>; the code adds nothing for them, and the names
  \<^verbatim>\<open>Ana Lopez\<close> and \<^verbatim>\<open>Anna Lopez\<close> score 50, not 95.
\<close>

theorem pair_weight_counterexample:
  "ustr_of ''ana'' \<noteq> ustr_of ''anna''
   \<and> spec_partial_match (ustr_of ''ana'') (ustr_of ''anna'')
   \<and> pair_weight (ustr_of ''ana'') (ustr_of ''anna'') \<noteq> 9 / 10
   \<and> calculate_match_percentage latin1 (ustr_of ''Ana Lopez'') (ustr_of ''Anna Lopez'') = 50"
  by (simp add: text_defs match_defs)

section \<open>The score splitter finds the leftmost pattern\<close>

lemma colon_not_space: "\<not> py_isspace U 58"
  by (simp add: py_isspace_def isascii_def ascii_isspace_def)

lemma after_colon_sound:
  "after_colon U r = Some g \<Longrightarrow>
     \<exists>sp t. r = sp @ t \<and> list_all (py_isspace U) sp \<and> is_number U g t"
proof (induction r)
  case Nil
  then show ?case by simp
next
  case (Cons d t)
  show ?case
  proof (cases "py_isspace U d \<and> after_colon U t \<noteq> None")
    case True
    with Cons.prems have "after_colon U t = Some g" by auto
    from Cons.IH[OF this] obtain sp t' where "t = sp @ t'" "list_all (py_isspace U) sp" "is_number U g t'"
      by blast
    with True have "d # t = (d # sp) @ t' \<and> list_all (py_isspace U) (d # sp) \<and> is_number U g t'"
      by simp
    then show ?thesis by blast
  next
    case False
    with Cons.prems have "py_isdecimal U d \<and> g = number_at U d t"
      by (auto split: if_splits option.splits)
    then have "d # t = [] @ d # t \<and> list_all (py_isspace U) [] \<and> is_number U g (d # t)"
      by (simp add: is_number_def)
    then show ?thesis by blast
  qed
qed

lemma after_colon_complete:
  "list_all (py_isspace U) sp \<Longrightarrow> is_number U g t \<Longrightarrow> \<exists>h. after_colon U (sp @ t) = Some h"
proof (induction sp)
  case Nil
  then show ?case by (auto simp: is_number_def split: option.splits)
next
  case (Cons a sp)
  then show ?case by (auto split: option.splits)
qed

lemma ci_score_length: "ci_score w \<Longrightarrow> length w = 5"
  by (auto simp: ci_score_def split: list.splits)

lemma score_match_sound: "score_match U t = Some g \<Longrightarrow> pattern_here U t g"
proof -
  assume m: "score_match U t = Some g"
  then have ci: "ci_score (take 5 t)" by (auto simp: score_match_def split: if_splits)
  let ?d = "drop 5 t"
  from m ci obtain r where dw: "dropWhile (py_isspace U) ?d = 58 # r" and ac: "after_colon U r = Some g"
    by (auto simp: score_match_def split: list.splits if_splits)
  from after_colon_sound[OF ac] obtain sp2 t' where
    r: "r = sp2 @ t'" and sp2: "list_all (py_isspace U) sp2" and num: "is_number U g t'" by blast
  have "?d = takeWhile (py_isspace U) ?d @ dropWhile (py_isspace U) ?d" by simp
  with dw r have "t = take 5 t @ takeWhile (py_isspace U) ?d @ 58 # sp2 @ t'"
    by (metis append_take_drop_id)
  moreover have "list_all (py_isspace U) (takeWhile (py_isspace U) ?d)"
    by (auto simp: list_all_iff dest: set_takeWhileD)
  ultimately show ?thesis unfolding pattern_here_def using ci sp2 num by blast
qed

lemma score_match_complete: "pattern_here U t g \<Longrightarrow> \<exists>h. score_match U t = Some h"
proof -
  assume "pattern_here U t g"
  then obtain w sp1 sp2 r where t: "t = w @ sp1 @ 58 # sp2 @ r" and ci: "ci_score w"
    and sp1: "list_all (py_isspace U) sp1" and sp2: "list_all (py_isspace U) sp2"
    and num: "is_number U g r"
    unfolding pattern_here_def by blast
  from ci have l: "length w = 5" by (rule ci_score_length)
  with t have tk: "take 5 t = w" and dr: "drop 5 t = sp1 @ 58 # sp2 @ r" by auto
  from sp1 have "dropWhile (py_isspace U) (sp1 @ 58 # sp2 @ r) = 58 # sp2 @ r"
    by (induction sp1) (auto simp: colon_not_space)
  moreover from after_colon_complete[OF sp2 num] obtain h where "after_colon U (sp2 @ r) = Some h" ..
  ultimately have "score_match U t = Some h" using tk dr ci by (simp add: score_match_def)
  then show ?thesis ..
qed

lemma pattern_at_split:
  assumes "s = pre @ c # t"
  shows "pattern_at U s (length pre) g \<longleftrightarrow>
     pattern_here U (c # t) g \<and>
     word_boundary U (if pre = [] then None else Some (last pre)) (Some c)"
proof -
  have "pre \<noteq> [] \<Longrightarrow> s ! (length pre - 1) = last pre"
    using assms by (simp add: nth_append last_conv_nth)
  then show ?thesis using assms by (auto simp: pattern_at_def)
qed

lemma search_from_spec:
  assumes "s = pre @ t" "prev = (if pre = [] then None else Some (last pre))"
  shows "case search_from U prev (length pre) t of
           None \<Rightarrow> \<forall>j g. length pre \<le> j \<longrightarrow> \<not> pattern_at U s j g
         | Some (k, g) \<Rightarrow> length pre \<le> k \<and> pattern_at U s k g
              \<and> (\<forall>j h. length pre \<le> j \<and> j < k \<longrightarrow> \<not> pattern_at U s j h)"
  using assms
proof (induction t arbitrary: pre prev)
  case Nil
  then show ?case by (simp add: pattern_at_def)
next
  case (Cons c t)
  let ?m = "if word_boundary U prev (Some c) then score_match U (c # t) else None"
  from Cons.prems have s: "s = pre @ c # t" by simp
  show ?case
  proof (cases ?m)
    case (Some g)
    then have "word_boundary U prev (Some c)" "score_match U (c # t) = Some g"
      by (auto split: if_splits)
    with score_match_sound[of U "c # t" g] Cons.prems(2) pattern_at_split[OF s, of U g]
    have "pattern_at U s (length pre) g" by simp
    with Some show ?thesis by auto
  next
    case None
    then have no: "\<not> pattern_at U s (length pre) g" for g
      using score_match_complete[of U "c # t" g] Cons.prems(2) pattern_at_split[OF s, of U g]
      by (auto split: if_splits)
    have s': "s = (pre @ [c]) @ t" using s by simp
    have p': "Some c = (if pre @ [c] = [] then None else Some (last (pre @ [c])))" by simp
    note ih = Cons.IH[OF s' p']
    have step: "search_from U prev (length pre) (c # t) = search_from U (Some c) (length (pre @ [c])) t"
      using None by simp
    show ?thesis
    proof (cases "search_from U (Some c) (length (pre @ [c])) t")
      case None
      with ih have "\<forall>j g. Suc (length pre) \<le> j \<longrightarrow> \<not> pattern_at U s j g" by simp
      with no have "\<forall>j g. length pre \<le> j \<longrightarrow> \<not> pattern_at U s j g"
        by (metis Suc_leI le_neq_implies_less)
      with None step show ?thesis by simp
    next
      case (Some kg)
      obtain k g where kg: "kg = (k, g)" by (cases kg)
      with Some ih have a: "Suc (length pre) \<le> k" and b: "pattern_at U s k g"
        and c: "\<forall>j h. Suc (length pre) \<le> j \<and> j < k \<longrightarrow> \<not> pattern_at U s j h" by auto
      from c no have "\<forall>j h. length pre \<le> j \<and> j < k \<longrightarrow> \<not> pattern_at U s j h"
        by (metis Suc_leI le_neq_implies_less)
      with a b Some kg step show ?thesis by simp
    qed
  qed
qed

lemma search_spec:
  "case search_from U None 0 s of
     None \<Rightarrow> \<forall>j g. \<not> pattern_at U s j g
   | Some (k, g) \<Rightarrow> pattern_at U s k g \<and> (\<forall>j h. j < k \<longrightarrow> \<not> pattern_at U s j h)"
  using search_from_spec[of s "[]" s None U] by (auto split: option.splits)

lemma split_none:
  "\<forall>j g. \<not> pattern_at U s j g \<Longrightarrow> split_feedback_and_score U s = (s, [])"
  using search_spec[of U s] by (auto simp: split_feedback_and_score_def split: option.splits)

lemma split_some:
  "pattern_at U s i g \<Longrightarrow>
     \<exists>k h. pattern_at U s k h \<and> (\<forall>j h'. j < k \<longrightarrow> \<not> pattern_at U s j h')
        \<and> split_feedback_and_score U s = (py_strip U (take k s), h)"
  using search_spec[of U s] by (auto simp: split_feedback_and_score_def split: option.splits)

text \<open>
  Claim C7, amended. When the text holds, at a word boundary, the letters
  \<^verbatim>\<open>score\<close> in any case, optional whitespace, a colon, optional whitespace and a
  digit (with a point and a second digit when they follow), the splitter returns the
  number of the leftmost such place as the score and the stripped text before that
  place as the comment. When the text holds no such place, it returns the whole text
  and an empty score.
\<close>

theorem split_feedback_and_score_pattern:
  "((\<forall>j g. \<not> pattern_at U s j g) \<longrightarrow> split_feedback_and_score U s = (s, []))
   \<and> ((\<exists>j g. pattern_at U s j g) \<longrightarrow>
        (\<exists>k h. pattern_at U s k h \<and> (\<forall>j h'. j < k \<longrightarrow> \<not> pattern_at U s j h')
           \<and> split_feedback_and_score U s = (py_strip U (take k s), h)))"
  using split_none[of U s] split_some[of U s] by blast

theorem split_feedback_and_score_pattern_witness:
  "(\<forall>j g. \<not> pattern_at latin1 (ustr_of ''ok'') j g)
   \<and> split_feedback_and_score latin1 (ustr_of ''ok'') = (ustr_of ''ok'', [])
   \<and> (\<exists>j g. pattern_at latin1 (ustr_of ''Good. Score: 8.5'') j g)
   \<and> (\<exists>k h. pattern_at latin1 (ustr_of ''Good. Score: 8.5'') k h
          \<and> (\<forall>j h'. j < k \<longrightarrow> \<not> pattern_at latin1 (ustr_of ''Good. Score: 8.5'') j h')
          \<and> split_feedback_and_score latin1 (ustr_of ''Good. Score: 8.5'')
              = (py_strip latin1 (take k (ustr_of ''Good. Score: 8.5'')), h))"
proof -
  have "search_from latin1 None 0 (ustr_of ''ok'') = None"
    by (simp add: text_defs score_defs)
  with search_spec[of latin1 "ustr_of ''ok''"]
  have none: "\<forall>j g. \<not> pattern_at latin1 (ustr_of ''ok'') j g" by simp
  have "search_from latin1 None 0 (ustr_of ''Good. Score: 8.5'') = Some (6, ustr_of ''8.5'')"
    by (simp add: text_defs score_defs)
  with search_spec[of latin1 "ustr_of ''Good. Score: 8.5''"]
  have ex: "\<exists>j g. pattern_at latin1 (ustr_of ''Good. Score: 8.5'') j g" by auto
  from none ex split_feedback_and_score_pattern[of latin1 "ustr_of ''ok''"]
    split_feedback_and_score_pattern[of latin1 "ustr_of ''Good. Score: 8.5''"]
  show ?thesis by blast
qed

text \<open>
  The claim as stated asks for the pattern anywhere in the text. In
  \<^verbatim>\<open>highscore:5\<close> the pattern stands after a letter: the splitter of the claim cuts
  the text there, and the code returns the whole text with no score.
\<close>

theorem split_feedback_and_score_counterexample:
  "spec_split_feedback_and_score latin1 (ustr_of ''highscore:5'')
     = (ustr_of ''high'', ustr_of ''5'')
   \<and> split_feedback_and_score latin1 (ustr_of ''highscore:5'')
     = (ustr_of ''highscore:5'', [])"
  by (simp add: text_defs score_defs)

section \<open>The loop over the archive entries\<close>

lemma same_frame_refl: "same_frame df df"
  by (simp add: same_frame_def)

lemma same_frame_trans: "same_frame a b \<Longrightarrow> same_frame b c \<Longrightarrow> same_frame a c"
  by (simp add: same_frame_def)

lemma same_frame_write_feedback: "same_frame df (write_feedback m c s df)"
  by (simp add: same_frame_def write_feedback_def comp_def)

lemma match_roster_cases:
  assumes "match_roster W idx student c sc df = Inr (matched, pct, status, c1, df1, idx1)"
  shows "(\<exists>m. matched = Some m \<and> status = Success \<and> df1 = write_feedback m c1 sc df)
       \<or> (matched = None \<and> status = No_match \<and> pct = 0 \<and> df1 = df \<and> c1 = c)"
  using assms
  by (auto simp: match_roster_def Let_def
      split: sum.splits option.splits cell.splits prod.splits if_splits)

lemma match_roster_frame:
  "match_roster W idx student c sc df = Inr (matched, pct, status, c1, df1, idx1)
     \<Longrightarrow> same_frame df df1"
  using match_roster_cases[of W idx student c sc df matched pct status c1 df1 idx1]
  by (auto simp: same_frame_refl same_frame_write_feedback)

lemma process_entry_cases:
  assumes "process_entry W tmp ins idx fname df = Inr (res, idx1, df1)"
  shows "file_name res = clean_corrupted_name (lib W) fname
       \<and> ((\<exists>m. matched_name res = Some m \<and> match_status res = Success
               \<and> df1 = write_feedback m (comment res) (score res) df)
          \<or> (matched_name res = None \<and> match_status res = No_match
               \<and> match_percentage res = 0 \<and> df1 = df))"
proof -
  from assms obtain full c0 sc matched pct status c1 where
    m: "match_roster W idx (py_strip (lib W) (splitext_root (clean_corrupted_name (lib W) fname)))
          (address_comment (lib W) (extract_first_name_from_filename (lib W) fname) c0) sc df
        = Inr (matched, pct, status, c1, df1, idx1)"
    and r: "file_name res = clean_corrupted_name (lib W) fname" "matched_name res = matched"
      "match_percentage res = pct" "match_status res = status" "score res = sc" "comment res = c1"
    by (auto simp: process_entry_def Let_def split: sum.splits prod.splits)
  from match_roster_cases[OF m] r show ?thesis by auto
qed

lemma process_entry_frame:
  "process_entry W tmp ins idx fname df = Inr (res, idx1, df1) \<Longrightarrow> same_frame df df1"
  using process_entry_cases[of W tmp ins idx fname df res idx1 df1]
  by (auto simp: same_frame_refl same_frame_write_feedback)

lemma process_file_frame:
  "process_file W tmp ins tot idx fname df rs = (ev, df1, rs1) \<Longrightarrow> same_frame df df1"
  by (auto simp: process_file_def same_frame_refl process_entry_frame split: sum.splits prod.splits)

lemma process_file_item_event:
  "process_file W tmp ins tot idx fname df rs = (ev, df1, rs1)
     \<Longrightarrow> is_item_event (lib W) fname ev"
  by (auto simp: process_file_def is_item_event_def dest: process_entry_cases
      split: sum.splits prod.splits)

lemma process_files_frame:
  "process_files W tmp ins tot idx files df rs = (evs, df1, rs1) \<Longrightarrow> same_frame df df1"
proof (induction files arbitrary: idx df rs evs df1 rs1)
  case Nil
  then show ?case by (simp add: same_frame_refl)
next
  case (Cons f files)
  obtain ev dfa rsa where a: "process_file W tmp ins tot idx f df rs = (ev, dfa, rsa)"
    by (cases "process_file W tmp ins tot idx f df rs") auto
  obtain evs' dfb rsb where b: "process_files W tmp ins tot (Suc idx) files dfa rsa = (evs', dfb, rsb)"
    by (cases "process_files W tmp ins tot (Suc idx) files dfa rsa") auto
  from Cons.prems a b have "df1 = dfb" by simp
  with process_file_frame[OF a] Cons.IH[OF b] show ?case by (auto intro: same_frame_trans)
qed

lemma process_files_events:
  "process_files W tmp ins tot idx files df rs = (evs, df1, rs1)
     \<Longrightarrow> list_all2 (is_item_event (lib W)) files evs"
proof (induction files arbitrary: idx df rs evs df1 rs1)
  case Nil
  then show ?case by simp
next
  case (Cons f files)
  obtain ev dfa rsa where a: "process_file W tmp ins tot idx f df rs = (ev, dfa, rsa)"
    by (cases "process_file W tmp ins tot idx f df rs") auto
  obtain evs' dfb rsb where b: "process_files W tmp ins tot (Suc idx) files dfa rsa = (evs', dfb, rsb)"
    by (cases "process_files W tmp ins tot (Suc idx) files dfa rsa") auto
  from Cons.prems a b have "evs = ev # evs'" by simp
  with process_file_item_event[OF a] Cons.IH[OF b] show ?case by simp
qed

lemma process_files_nth:
  "process_files W tmp ins tot idx files df rs = (evs, df1, rs1) \<Longrightarrow> i < length files
     \<Longrightarrow> \<exists>dfa rsa. evs ! i = fst (process_file W tmp ins tot (idx + i) (files ! i) dfa rsa)"
proof (induction files arbitrary: idx df rs evs i df1 rs1)
  case Nil
  then show ?case by simp
next
  case (Cons f files)
  obtain ev dfa rsa where a: "process_file W tmp ins tot idx f df rs = (ev, dfa, rsa)"
    by (cases "process_file W tmp ins tot idx f df rs") auto
  obtain evs' dfb rsb where b: "process_files W tmp ins tot (Suc idx) files dfa rsa = (evs', dfb, rsb)"
    by (cases "process_files W tmp ins tot (Suc idx) files dfa rsa") auto
  from Cons.prems a b have e: "evs = ev # evs'" by simp
  show ?case
  proof (cases i)
    case 0
    with e a have "evs ! i = fst (process_file W tmp ins tot (idx + i) ((f # files) ! i) df rs)"
      by simp
    then show ?thesis by blast
  next
    case (Suc j)
    with Cons.prems have "j < length files" by simp
    from Cons.IH[OF b this] obtain dfc rsc where
      "evs' ! j = fst (process_file W tmp ins tot (Suc idx + j) (files ! j) dfc rsc)" by blast
    with e Suc have "evs ! i = fst (process_file W tmp ins tot (idx + i) ((f # files) ! i) dfc rsc)"
      by simp
    then show ?thesis by blast
  qed
qed

lemma process_file_extract_raises:
  "extract_text W (os_path_join tmp (py_nfd (lib W) fname)) = Inl m \<Longrightarrow>
     fst (process_file W tmp ins tot idx fname df rs)
       = Error (if fname \<noteq> [] then clean_corrupted_name (lib W) fname else ustr_of ''Unknown file'')
           (Raised m)"
  by (simp add: process_file_def process_entry_def generate_feedback_def Let_def)

section \<open>The runs, evaluated\<close>

lemma demo_run1_value:
  "events demo_run1
   = [Progress 2 1 200
        \<lparr> file_name = ustr_of ''Ana Ruizpdf'', student_name = ustr_of ''Ana Ruizpdf'',
          matched_name = None, match_percentage = 0, match_status = No_match,
          score = ustr_of ''7'', comment = ustr_of ''Ana, fine.'',
          comment_preview = ustr_of ''Ana, fine.'' \<rparr>,
      Complete 1 (ustr_of ''r_with_feedback_20250101120000.csv'')
        (ustr_of ''bulk_feedback_20250101120000.xlsx'')]"
  by (simp add: demo_run1_def eval_defs cong: let_weak_cong prod.case_cong_weak)

lemma demo_run2_inputs:
  "loop_inputs demo_world2 (ustr_of ''essay'') (ustr_of ''a.zip'') (ustr_of ''r.csv'')
     = Some (ustr_of ''/tmp/x'', [ustr_of ''Ana Ruiz.pdf'', ustr_of ''Carl Jones Smith.pdf''])"
  by (simp add: demo_world2_def eval_defs cong: let_weak_cong prod.case_cong_weak)

lemma demo_run2_value:
  "demo_run2 =
     \<lparr> events =
         [Error (ustr_of ''Ana Ruizpdf'') (Raised (ustr_of ''bad pdf'')),
          Progress 2 2 100
            \<lparr> file_name = ustr_of ''Carl Jones Smithpdf'',
              student_name = ustr_of ''Carl Jones Smithpdf'',
              matched_name = Some (ustr_of ''Carl Jones Smith''), match_percentage = 100,
              match_status = Success, score = ustr_of ''7'',
              comment = ustr_of ''Carl, fine.'', comment_preview = ustr_of ''Carl, fine.'' \<rparr>,
          Complete 2 (ustr_of ''r_with_feedback_20250101120000.csv'')
            (ustr_of ''bulk_feedback_20250101120000.xlsx'')],
       artifacts =
         [Csv_file (ustr_of ''uploads/r_with_feedback_20250101120000.csv'')
            [\<lparr> full_name = Text (ustr_of ''Carl Jones Smith''), other_columns = [],
               feedback_comments = Str (ustr_of ''Carl, fine.''), grade = Float (ustr_of ''7'') \<rparr>,
             \<lparr> full_name = Text (ustr_of ''Dora Smith''), other_columns = [],
               feedback_comments = Str [], grade = PyNone \<rparr>],
          Excel_file (ustr_of ''uploads/bulk_feedback_20250101120000.xlsx'')
            [\<lparr> file_name = ustr_of ''Carl Jones Smithpdf'',
               student_name = ustr_of ''Carl Jones Smithpdf'',
               matched_name = Some (ustr_of ''Carl Jones Smith''), match_percentage = 100,
               match_status = Success, score = ustr_of ''7'',
               comment = ustr_of ''Carl, fine.'', comment_preview = ustr_of ''Carl, fine.'' \<rparr>]],
       session_updated = True \<rparr>"
  by (simp add: demo_run2_def demo_world2_def eval_defs cong: let_weak_cong prod.case_cong_weak)

lemma demo_entry3_value:
  "demo_entry3 =
     Inr (\<lparr> file_name = ustr_of ''Ana Maria Ruizpdf'',
            student_name = ustr_of ''Ana Maria Ruizpdf'',
            matched_name = Some (ustr_of ''Ana Maria Ruiz''), match_percentage = 100,
            match_status = Success, score = ustr_of ''7'',
            comment = ustr_of ''Ana, fine.'', comment_preview = ustr_of ''Ana, fine.'' \<rparr>,
          1,
          [\<lparr> full_name = Text (ustr_of ''Ana Maria Ruiz''), other_columns = [],
             feedback_comments = Str (ustr_of ''Ana, fine.''), grade = Float (ustr_of ''7'') \<rparr>,
           \<lparr> full_name = Text (ustr_of ''Bob Stone''), other_columns = [],
             feedback_comments = Str [], grade = PyNone \<rparr>,
           \<lparr> full_name = Text (ustr_of ''Ana Maria Ruiz''), other_columns = [],
             feedback_comments = Str (ustr_of ''Ana, fine.''), grade = Float (ustr_of ''7'') \<rparr>])"
  by (simp add: demo_entry3_def demo_world3_def eval_defs cong: let_weak_cong prod.case_cong_weak)



section \<open>The confidence of a match\<close>







section \<open>The batch as a whole\<close>

lemma finalize_events:
  "\<exists>tail. events (finalize W sid csv tmp n df rs evs) = evs @ tail
     \<and> ((\<exists>e. tail = [Fatal_error e]) \<or> (\<exists>c x. tail = [Complete n c x])
        \<or> (\<exists>c x e. tail = [Complete n c x, Fatal_error e]))"
  by (auto simp: finalize_def Let_def split: option.splits)

lemma finalize_artifacts:
  "a \<in> set (artifacts (finalize W sid csv tmp n df rs evs))
     \<Longrightarrow> (\<exists>name. a = Csv_file name df) \<or> (\<exists>name. a = Excel_file name rs)"
  by (auto simp: finalize_def Let_def split: option.splits if_splits)

lemma finalize_complete:
  "Complete n' c x \<in> set (events (finalize W sid csv tmp n df rs evs)) \<Longrightarrow>
     Complete n' c x \<in> set evs \<or> (\<exists>name. Csv_file name df \<in> set (artifacts (finalize W sid csv tmp n df rs evs)))"
  by (auto simp: finalize_def Let_def split: option.splits if_splits)

lemma item_event_not_final:
  "list_all2 (is_item_event U) files evs \<Longrightarrow> e \<in> set evs \<Longrightarrow>
     \<not> is_fatal e \<and> (\<forall>n c x. e \<noteq> Complete n c x)"
  by (auto simp: list_all2_conv_all_nth in_set_conv_nth is_item_event_def is_fatal_def
      split: event.splits)

lemma prepare_frame:
  "prepare W f zp csv = Inr (ins, df, tmp, files) \<Longrightarrow> read_csv W csv = Inr table
     \<Longrightarrow> same_frame (rows table) df"
  by (auto simp: prepare_def Let_def same_frame_def comp_def split: sum.splits if_splits prod.splits)

lemma run_unfold:
  assumes "loop_inputs W task zp csv = Some (tmp, files)"
  shows "\<exists>f ins df evs df1 rs.
           task_config task = Some f \<and> prepare W f zp csv = Inr (ins, df, tmp, files)
           \<and> process_files W tmp ins (length files) 1 files df [] = (evs, df1, rs)
           \<and> process_bulk_marking W sid task zp csv
               = finalize W sid csv tmp (length files) df1 rs evs"
proof -
  from assms obtain f where f: "task_config task = Some f"
    by (auto simp: loop_inputs_def split: option.splits)
  with assms obtain ins df where p: "prepare W f zp csv = Inr (ins, df, tmp, files)"
    by (auto simp: loop_inputs_def split: sum.splits)
  obtain evs df1 rs where l: "process_files W tmp ins (length files) 1 files df [] = (evs, df1, rs)"
    by (cases "process_files W tmp ins (length files) 1 files df []") auto
  with f p have "process_bulk_marking W sid task zp csv
      = finalize W sid csv tmp (length files) df1 rs evs"
    by (simp add: process_bulk_marking_def)
  with f p l show ?thesis by blast
qed

text \<open>
  In a run that reaches the loop over \<open>N\<close> files, the first \<open>N\<close> events are the events
  of the files, one for each in the order of the list, each a \<^verbatim>\<open>progress\<close> or an
  \<^verbatim>\<open>error\<close> event of its file. When the run yields no run-level failure, exactly one
  event follows them, and it is \<^verbatim>\<open>complete\<close>.
\<close>

lemma item_events_then_tail:
  assumes "loop_inputs W task zp csv = Some (tmp, files)"
  shows "list_all2 (is_item_event (lib W)) files
           (take (length files) (events (process_bulk_marking W sid task zp csv)))
       \<and> (\<not> list_ex is_fatal (events (process_bulk_marking W sid task zp csv)) \<longrightarrow>
            (\<exists>c x. drop (length files) (events (process_bulk_marking W sid task zp csv))
                     = [Complete (length files) c x]))"
proof -
  from run_unfold[OF assms, of sid] obtain f ins df evs df1 rs where
    l: "process_files W tmp ins (length files) 1 files df [] = (evs, df1, rs)"
    and r: "process_bulk_marking W sid task zp csv
            = finalize W sid csv tmp (length files) df1 rs evs" by blast
  from process_files_events[OF l] have ev: "list_all2 (is_item_event (lib W)) files evs" .
  then have len: "length evs = length files" by (auto dest: list_all2_lengthD)
  from finalize_events[of W sid csv tmp "length files" df1 rs evs] obtain tail where
    t: "events (finalize W sid csv tmp (length files) df1 rs evs) = evs @ tail"
    and tc: "(\<exists>e. tail = [Fatal_error e]) \<or> (\<exists>c x. tail = [Complete (length files) c x])
        \<or> (\<exists>c x e. tail = [Complete (length files) c x, Fatal_error e])" by blast
  from r t len ev have 1: "list_all2 (is_item_event (lib W)) files
           (take (length files) (events (process_bulk_marking W sid task zp csv)))" by simp
  from r t len have d: "drop (length files) (events (process_bulk_marking W sid task zp csv)) = tail"
    by simp
  have "\<not> list_ex is_fatal (events (process_bulk_marking W sid task zp csv)) \<Longrightarrow>
      \<exists>c x. tail = [Complete (length files) c x]"
    using tc r t by (auto simp: list_ex_iff is_fatal_def)
  with 1 d show ?thesis by simp
qed

lemma demo_run4_inputs:
  "loop_inputs demo_world4 (ustr_of ''essay'') (ustr_of ''a.zip'') (ustr_of ''r.csv'')
     = Some (ustr_of ''/tmp/x'', [ustr_of ''Ana Ruiz.pdf''])"
  by (simp add: demo_world4_def eval_defs cong: let_weak_cong prod.case_cong_weak)

lemma demo_run4_value:
  "events demo_run4
     = [Error (ustr_of ''Ana Ruizpdf'') (Raised (ustr_of ''bad pdf'')), Fatal_error IndexError]"
  by (simp add: demo_run4_def demo_world4_def eval_defs cong: let_weak_cong prod.case_cong_weak)

lemma demo_run5_inputs:
  "loop_inputs demo_world5 (ustr_of ''essay'') (ustr_of ''a.zip'') (ustr_of ''r.csv'')
     = Some (ustr_of ''/tmp/x'', [])"
  by (simp add: demo_world5_def eval_defs cong: let_weak_cong prod.case_cong_weak)

lemma demo_run5_value: "events demo_run5 = [Fatal_error IndexError]"
  by (simp add: demo_run5_def demo_world5_def eval_defs cong: let_weak_cong prod.case_cong_weak)

text \<open>
  Claim C8, the code at the failing input. The fourth run reaches the loop with one
  file, whose extraction raises. The handler of the entry yields its \<^verbatim>\<open>error\<close> event
  and the loop ends, but no result was recorded, the report cannot be built, and the
  run ends with \<^verbatim>\<open>fatal_error\<close>: the exception of the one entry has cost the run its
  \<^verbatim>\<open>complete\<close> event. The fifth run, over no file at all, ends the same way.
\<close>

theorem failed_entries_end_in_fatal_error:
  "loop_inputs demo_world4 (ustr_of ''essay'') (ustr_of ''a.zip'') (ustr_of ''r.csv'')
     = Some (ustr_of ''/tmp/x'', [ustr_of ''Ana Ruiz.pdf''])
   \<and> extract_text demo_world4 (ustr_of ''/tmp/x/Ana Ruiz.pdf'') = Inl (ustr_of ''bad pdf'')
   \<and> map event_type (events demo_run4)
       = [Some (ustr_of ''error''), Some (ustr_of ''fatal_error'')]
   \<and> list_ex is_fatal (events demo_run4)
   \<and> loop_inputs demo_world5 (ustr_of ''essay'') (ustr_of ''a.zip'') (ustr_of ''r.csv'')
     = Some (ustr_of ''/tmp/x'', [])
   \<and> map event_type (events demo_run5) = [Some (ustr_of ''fatal_error'')]"
proof -
  have x: "extract_text demo_world4 (ustr_of ''/tmp/x/Ana Ruiz.pdf'') = Inl (ustr_of ''bad pdf'')"
    by (simp add: demo_world4_def demo_world_sel)
  have e4: "map event_type (events demo_run4)
      = [Some (ustr_of ''error''), Some (ustr_of ''fatal_error'')]"
    by (simp add: demo_run4_value event_type_def)
  have f4: "list_ex is_fatal (events demo_run4)"
    by (simp add: demo_run4_value is_fatal_def)
  have e5: "map event_type (events demo_run5) = [Some (ustr_of ''fatal_error'')]"
    by (simp add: demo_run5_value event_type_def)
  from demo_run4_inputs x e4 f4 demo_run5_inputs e5 show ?thesis by blast
qed

text \<open>
  Claim C2, amended. When the extraction of the text of one entry raises, the event of
  that entry is an \<^verbatim>\<open>error\<close> event that names the cleaned file name and carries the
  exception, neither a \<^verbatim>\<open>progress\<close> event nor a \<^verbatim>\<open>fatal_error\<close>; and the loop goes
  on: every entry of the list still has its own event, at its own place.
\<close>

theorem extraction_failure_event:
  assumes "loop_inputs W task zp csv = Some (tmp, files)"
    and "i < length files"
    and "extract_text W (os_path_join tmp (py_nfd (lib W) (files ! i))) = Inl m"
  shows "events (process_bulk_marking W sid task zp csv) ! i
           = Error (if files ! i \<noteq> [] then clean_corrupted_name (lib W) (files ! i)
                    else ustr_of ''Unknown file'') (Raised m)
       \<and> event_type (events (process_bulk_marking W sid task zp csv) ! i)
           = Some (ustr_of ''error'')
       \<and> list_all2 (is_item_event (lib W)) files
           (take (length files) (events (process_bulk_marking W sid task zp csv)))"
proof -
  from run_unfold[OF assms(1), of sid] obtain f ins df evs df1 rs where
    l: "process_files W tmp ins (length files) 1 files df [] = (evs, df1, rs)"
    and r: "process_bulk_marking W sid task zp csv
            = finalize W sid csv tmp (length files) df1 rs evs" by blast
  from process_files_events[OF l] have len: "length evs = length files"
    by (auto dest: list_all2_lengthD)
  from finalize_events[of W sid csv tmp "length files" df1 rs evs] obtain tail where
    t: "events (finalize W sid csv tmp (length files) df1 rs evs) = evs @ tail" by blast
  from r t len assms(2) have "events (process_bulk_marking W sid task zp csv) ! i = evs ! i"
    by (simp add: nth_append)
  moreover from process_files_nth[OF l assms(2)] obtain dfa rsa where
    "evs ! i = fst (process_file W tmp ins (length files) (1 + i) (files ! i) dfa rsa)" by blast
  ultimately have "events (process_bulk_marking W sid task zp csv) ! i
           = Error (if files ! i \<noteq> [] then clean_corrupted_name (lib W) (files ! i)
                    else ustr_of ''Unknown file'') (Raised m)
       \<and> event_type (events (process_bulk_marking W sid task zp csv) ! i)
           = Some (ustr_of ''error'')"
    using process_file_extract_raises[OF assms(3)] by (simp add: event_type_def)
  with item_events_then_tail[OF assms(1), of sid] show ?thesis by blast
qed

theorem extraction_failure_event_witness:
  "loop_inputs demo_world2 (ustr_of ''essay'') (ustr_of ''a.zip'') (ustr_of ''r.csv'')
     = Some (ustr_of ''/tmp/x'', [ustr_of ''Ana Ruiz.pdf'', ustr_of ''Carl Jones Smith.pdf''])
   \<and> extract_text demo_world2 (os_path_join (ustr_of ''/tmp/x'')
        (py_nfd (lib demo_world2) (ustr_of ''Ana Ruiz.pdf''))) = Inl (ustr_of ''bad pdf'')
   \<and> event_type (events demo_run2 ! 0) = Some (ustr_of ''error'')"
proof -
  have x: "extract_text demo_world2 (os_path_join (ustr_of ''/tmp/x'')
      (py_nfd (lib demo_world2)
         ([ustr_of ''Ana Ruiz.pdf'', ustr_of ''Carl Jones Smith.pdf''] ! 0)))
      = Inl (ustr_of ''bad pdf'')"
    by (simp add: demo_world2_def eval_defs)
  have x0: "extract_text demo_world2 (os_path_join (ustr_of ''/tmp/x'')
      (py_nfd (lib demo_world2) (ustr_of ''Ana Ruiz.pdf''))) = Inl (ustr_of ''bad pdf'')"
    using x by simp
  have i: "0 < length [ustr_of ''Ana Ruiz.pdf'', ustr_of ''Carl Jones Smith.pdf'']" by simp
  note t = extraction_failure_event[OF demo_run2_inputs i x, of "ustr_of ''s1''",
      folded demo_run2_def]
  from t x0 demo_run2_inputs show ?thesis by blast
qed

text \<open>
  The claim as stated promises a \<^verbatim>\<open>progress\<close> event with a comment that starts with
  \<^verbatim>\<open>Error:\<close>. In the second run the extraction of the first entry raises, and the
  event of that entry is an \<^verbatim>\<open>error\<close> event.
\<close>

theorem extraction_failure_counterexample:
  "extract_text demo_world2 (ustr_of ''/tmp/x/Ana Ruiz.pdf'') = Inl (ustr_of ''bad pdf'')
   \<and> events demo_run2 ! 0 = Error (ustr_of ''Ana Ruizpdf'') (Raised (ustr_of ''bad pdf''))
   \<and> event_type (events demo_run2 ! 0) \<noteq> Some (ustr_of ''progress'')"
  by (simp add: demo_run2_value event_type_def demo_world2_def demo_world_sel ustr_of_def)

text \<open>
  Claim C4, amended. With a task type outside the configured set the run yields one
  event, the record \<^verbatim>\<open>{"error": "Invalid task type"}\<close>, which has no key \<^verbatim>\<open>type\<close>
  and so is not a \<^verbatim>\<open>fatal_error\<close> event; nothing is written and the session is not
  updated.
\<close>

theorem invalid_task_type_run:
  assumes "task_config task = None"
  shows "events (process_bulk_marking W sid task zp csv) = [Invalid_task_type]
       \<and> map event_type (events (process_bulk_marking W sid task zp csv)) = [None]
       \<and> artifacts (process_bulk_marking W sid task zp csv) = []
       \<and> \<not> session_updated (process_bulk_marking W sid task zp csv)"
  using assms by (simp add: process_bulk_marking_def event_type_def)

theorem invalid_task_type_run_witness:
  "task_config (ustr_of ''poetry'') = None
   \<and> events (process_bulk_marking demo_world2 (ustr_of ''s1'') (ustr_of ''poetry'')
        (ustr_of ''a.zip'') (ustr_of ''r.csv'')) = [Invalid_task_type]
   \<and> artifacts (process_bulk_marking demo_world2 (ustr_of ''s1'') (ustr_of ''poetry'')
        (ustr_of ''a.zip'') (ustr_of ''r.csv'')) = []"
proof -
  have n: "task_config (ustr_of ''poetry'') = None"
    by (simp add: task_config_def task_configs_def ustr_of_def)
  from invalid_task_type_run[OF n, of demo_world2 "ustr_of ''s1''" "ustr_of ''a.zip''"
      "ustr_of ''r.csv''"] n
  show ?thesis by simp
qed

text \<open>The claim as stated has the one event be of type \<^verbatim>\<open>fatal_error\<close>. The event of
  the task type \<^verbatim>\<open>poetry\<close> has no type.\<close>

theorem invalid_task_type_counterexample:
  "task_config (ustr_of ''poetry'') = None
   \<and> map event_type (events (process_bulk_marking demo_world2 (ustr_of ''s1'')
        (ustr_of ''poetry'') (ustr_of ''a.zip'') (ustr_of ''r.csv'')))
      \<noteq> [Some (ustr_of ''fatal_error'')]"
  by (simp add: process_bulk_marking_def task_config_def task_configs_def ustr_of_def
      event_type_def)

text \<open>
  Claim C9. The roster that a run writes has the rows of the roster it read, in the
  same order, with the same \<^verbatim>\<open>Full name\<close> and the same other columns: only the fields
  \<^verbatim>\<open>Feedback comments\<close> and \<^verbatim>\<open>Grade\<close> can differ. A run that yields \<^verbatim>\<open>complete\<close> has
  written the roster.
\<close>

theorem roster_frame_preserved:
  assumes "read_csv W csv = Inr table"
  shows "(\<forall>name df. Csv_file name df \<in> set (artifacts (process_bulk_marking W sid task zp csv))
           \<longrightarrow> length df = length (rows table)
               \<and> map full_name df = map full_name (rows table)
               \<and> map other_columns df = map other_columns (rows table))
       \<and> ((\<exists>n c x. Complete n c x \<in> set (events (process_bulk_marking W sid task zp csv)))
           \<longrightarrow> (\<exists>name df. Csv_file name df
                   \<in> set (artifacts (process_bulk_marking W sid task zp csv))))"
proof (cases "loop_inputs W task zp csv")
  case None
  then have "(events (process_bulk_marking W sid task zp csv) = [Invalid_task_type]
      \<or> (\<exists>e. events (process_bulk_marking W sid task zp csv) = [Fatal_error e]))
      \<and> artifacts (process_bulk_marking W sid task zp csv) = []"
    by (auto simp: loop_inputs_def process_bulk_marking_def split: option.splits sum.splits)
  then show ?thesis by auto
next
  case (Some a)
  obtain tmp files where a: "a = (tmp, files)" by (cases a)
  with Some have li: "loop_inputs W task zp csv = Some (tmp, files)" by simp
  from run_unfold[OF li, of sid] obtain f ins df evs df1 rs where
    p: "prepare W f zp csv = Inr (ins, df, tmp, files)"
    and l: "process_files W tmp ins (length files) 1 files df [] = (evs, df1, rs)"
    and r: "process_bulk_marking W sid task zp csv
            = finalize W sid csv tmp (length files) df1 rs evs" by blast
  from prepare_frame[OF p assms] process_files_frame[OF l]
  have fr: "same_frame (rows table) df1" by (rule same_frame_trans)
  have 1: "length df' = length (rows table) \<and> map full_name df' = map full_name (rows table)
      \<and> map other_columns df' = map other_columns (rows table)"
    if "Csv_file name df' \<in> set (artifacts (process_bulk_marking W sid task zp csv))"
    for name df'
    using finalize_artifacts[of "Csv_file name df'" W sid csv tmp "length files" df1 rs evs]
      that r fr by (auto simp: same_frame_def)
  have 2: "\<exists>name df. Csv_file name df \<in> set (artifacts (process_bulk_marking W sid task zp csv))"
    if "Complete n c x \<in> set (events (process_bulk_marking W sid task zp csv))" for n c x
    using finalize_complete[of n c x W sid csv tmp "length files" df1 rs evs] that r
      item_event_not_final[OF process_files_events[OF l], of "Complete n c x"]
    by auto
  from 1 2 show ?thesis by blast
qed

theorem roster_frame_preserved_witness:
  "read_csv demo_world2 (ustr_of ''r.csv'')
     = Inr (demo_roster [''Carl Jones Smith'', ''Dora Smith''])
   \<and> Complete 2 (ustr_of ''r_with_feedback_20250101120000.csv'')
        (ustr_of ''bulk_feedback_20250101120000.xlsx'') \<in> set (events demo_run2)
   \<and> (\<exists>name df. Csv_file name df \<in> set (artifacts demo_run2)
        \<and> map full_name df = [Text (ustr_of ''Carl Jones Smith''), Text (ustr_of ''Dora Smith'')]
        \<and> feedback_comments (df ! 0) = Str (ustr_of ''Carl, fine.''))"
proof -
  have rd: "read_csv demo_world2 (ustr_of ''r.csv'')
     = Inr (demo_roster [''Carl Jones Smith'', ''Dora Smith''])"
    by (simp add: demo_world2_def demo_world_sel)
  have c: "Complete 2 (ustr_of ''r_with_feedback_20250101120000.csv'')
        (ustr_of ''bulk_feedback_20250101120000.xlsx'') \<in> set (events demo_run2)"
    by (simp add: demo_run2_value)
  note t = roster_frame_preserved[OF rd, of "ustr_of ''s1''" "ustr_of ''essay''" "ustr_of ''a.zip''",
      folded demo_run2_def]
  from t c obtain name df where a: "Csv_file name df \<in> set (artifacts demo_run2)" by blast
  with t have "map full_name df = map full_name (rows (demo_roster [''Carl Jones Smith'', ''Dora Smith'']))"
    by blast
  then have m: "map full_name df = [Text (ustr_of ''Carl Jones Smith''), Text (ustr_of ''Dora Smith'')]"
    by (simp add: demo_roster_sel name_row_def)
  from a have fb: "feedback_comments (df ! 0) = Str (ustr_of ''Carl, fine.'')"
    by (auto simp: demo_run2_value)
  have "\<exists>name df. Csv_file name df \<in> set (artifacts demo_run2)
        \<and> map full_name df = [Text (ustr_of ''Carl Jones Smith''), Text (ustr_of ''Dora Smith'')]
        \<and> feedback_comments (df ! 0) = Str (ustr_of ''Carl, fine.'')"
    using a m fb by (intro exI[of _ name] exI[of _ df]) simp
  with rd c show ?thesis by simp
qed

text \<open>
  Claim C10. When an entry is matched to the roster name \<open>m\<close>, every row whose
  \<^verbatim>\<open>Full name\<close> is \<open>m\<close> receives the comment and the grade of that entry, and every
  other row is left as it was.
\<close>

theorem match_written_to_every_namesake:
  assumes "process_entry W tmp ins idx fname df = Inr (res, idx1, df1)"
    and "matched_name res = Some m"
  shows "length df1 = length df
       \<and> (\<forall>i<length df.
            df1 ! i = (if full_name (df ! i) = Text m
                       then (df ! i)\<lparr>feedback_comments := Str (comment res),
                              grade := (if score res \<noteq> [] then Float (score res) else PyNone)\<rparr>
                       else df ! i))"
  using process_entry_cases[OF assms(1)] assms(2)
  by (auto simp: write_feedback_def)

theorem match_written_to_every_namesake_witness:
  "(\<exists>res idx1 df1. demo_entry3 = Inr (res, idx1, df1)
      \<and> matched_name res = Some (ustr_of ''Ana Maria Ruiz'')
      \<and> feedback_comments (df1 ! 0) = Str (comment res)
      \<and> feedback_comments (df1 ! 2) = Str (comment res)
      \<and> df1 ! 1 = name_row ''Bob Stone'')"
proof -
  from demo_entry3_value obtain res idx1 df1 where
    e: "demo_entry3 = Inr (res, idx1, df1)"
    and m: "matched_name res = Some (ustr_of ''Ana Maria Ruiz'')" by simp
  let ?df = "map name_row [''Ana Maria Ruiz'', ''Bob Stone'', ''Ana Maria Ruiz'']"
  note t = match_written_to_every_namesake[OF e[unfolded demo_entry3_def] m]
  have n: "ustr_of ''Bob Stone'' \<noteq> ustr_of ''Ana Maria Ruiz''" by (simp add: ustr_of_def)
  from t have "df1 ! 0 = (if full_name (?df ! 0) = Text (ustr_of ''Ana Maria Ruiz'')
      then (?df ! 0)\<lparr>feedback_comments := Str (comment res),
             grade := (if score res \<noteq> [] then Float (score res) else PyNone)\<rparr> else ?df ! 0)"
    by simp
  then have 0: "feedback_comments (df1 ! 0) = Str (comment res)" by (simp add: name_row_def)
  from t have "df1 ! 2 = (if full_name (?df ! 2) = Text (ustr_of ''Ana Maria Ruiz'')
      then (?df ! 2)\<lparr>feedback_comments := Str (comment res),
             grade := (if score res \<noteq> [] then Float (score res) else PyNone)\<rparr> else ?df ! 2)"
    by simp
  then have 2: "feedback_comments (df1 ! 2) = Str (comment res)" by (simp add: name_row_def)
  from t have "df1 ! 1 = (if full_name (?df ! 1) = Text (ustr_of ''Ana Maria Ruiz'')
      then (?df ! 1)\<lparr>feedback_comments := Str (comment res),
             grade := (if score res \<noteq> [] then Float (score res) else PyNone)\<rparr> else ?df ! 1)"
    by simp
  with n have 1: "df1 ! 1 = name_row ''Bob Stone''" by (simp add: name_row_def)
  from e m 0 1 2 show ?thesis by blast
qed

text \<open>
  Claim C3, the code at the failing input. The first run has one file and a roster of
  three rows, none of which matches. The counter \<^verbatim>\<open>current\<close> of the event of the file
  is 2, the index of the last roster row left in \<^verbatim>\<open>idx\<close> by the inner loop, and not
  the position 1 of the file; the percentage is 200.
\<close>

theorem progress_current_shadowed:
  "map event_current (events demo_run1) = [Some 2, None]
   \<and> (\<exists>res c x. events demo_run1 = [Progress 2 1 200 res, Complete 1 c x])"
  by (simp add: demo_run1_value event_current_def)

end
